theory Spec2Isabelle
  imports Complex_Main "HOL-Library.Log_Nat" "HOL-Library.Multiset" "HOL-Library.Sublist"
begin

section \<open>The transaction store of \<^verbatim>\<open>src/App.tsx\<close>\<close>

text \<open>
  \<^verbatim>\<open>App.tsx\<close> holds the whole core of the finance tracker: the initializer of the
  \<^verbatim>\<open>transactions\<close> state, which reads and repairs the persisted payload (lines 10-55), the
  two mutators \<^verbatim>\<open>addTransaction\<close> and \<^verbatim>\<open>deleteTransaction\<close> (lines 61-72), and the
  aggregation of the totals (lines 74-92). The embedding follows the file top-down. What the
  JavaScript platform contributes (numbers, coercions, the clock, \<^verbatim>\<open>JSON.parse\<close>) is
  modelled first.
\<close>

subsection \<open>JavaScript numbers\<close>

text \<open>
  A JavaScript number is an IEEE 754 binary64 value. \<open>Fin q\<close> is the finite double whose
  exact value is the rational \<open>q\<close>; the two zeros are identified (the program never
  divides by an amount or prints the sign of a zero). Every arithmetic result is rounded to
  the nearest double, ties to the even significand: \<open>round_double\<close>.
\<close>

datatype jsnum = Fin rat | PInf | NInf | NaN

definition ilog2 :: "rat \<Rightarrow> int" where
  \<comment> \<open>\<open>\<lfloor>log\<^sub>2 a\<rfloor>\<close> for \<open>0 < a\<close>, through the bit length of an integer.\<close>
  "ilog2 a = (if 1 \<le> a then bitlen \<lfloor>a\<rfloor> - 1 else - bitlen (\<lceil>1 / a\<rceil> - 1))"

definition round_even :: "rat \<Rightarrow> int" where
  "round_even m =
     (let f = \<lfloor>m\<rfloor>; d = m - of_int f
      in if d < 1 / 2 then f else if 1 / 2 < d then f + 1 else if even f then f else f + 1)"

definition round_double :: "rat \<Rightarrow> jsnum" where
  \<comment> \<open>The unit in the last place of \<open>a\<close> is \<open>2 powi e\<close>: 53 significant bits, and the
      subnormal spacing \<open>2 powi - 1074\<close> at the bottom. A significand that reaches
      \<open>2 ^ 53\<close> at the top exponent 971 has left the finite range.\<close>
  "round_double q =
     (if q = 0 then Fin 0
      else let a = \<bar>q\<bar>;
               e = max (ilog2 a - 52) (- 1074);
               n = round_even (a / 2 powi e)
           in if 971 < e \<or> (e = 971 \<and> 2 ^ 53 \<le> n) then (if 0 < q then PInf else NInf)
              else Fin (if 0 < q then of_int n * 2 powi e else - (of_int n * 2 powi e)))"

fun js_add :: "jsnum \<Rightarrow> jsnum \<Rightarrow> jsnum" where
  "js_add NaN y = NaN"
| "js_add x NaN = NaN"
| "js_add PInf NInf = NaN"
| "js_add NInf PInf = NaN"
| "js_add PInf y = PInf"
| "js_add x PInf = PInf"
| "js_add NInf y = NInf"
| "js_add x NInf = NInf"
| "js_add (Fin a) (Fin b) = round_double (a + b)"

fun js_negate :: "jsnum \<Rightarrow> jsnum" where
  "js_negate (Fin a) = Fin (- a)"
| "js_negate PInf = NInf"
| "js_negate NInf = PInf"
| "js_negate NaN = NaN"

definition js_sub :: "jsnum \<Rightarrow> jsnum \<Rightarrow> jsnum" where
  "js_sub x y = js_add x (js_negate y)"

subsection \<open>JavaScript values\<close>

text \<open>
  The values \<^verbatim>\<open>JSON.parse\<close> can return, and \<^verbatim>\<open>undefined\<close> for a property that is not
  there. Strings are lists of 8-bit characters: a JavaScript string whose code units are all
  below 256. An object is the list of its own properties, keys distinct.
\<close>

datatype jsval =
    JUndefined
  | JNull
  | JBool bool
  | JNum jsnum
  | JStr string
  | JArr "jsval list"
  | JObj "(string \<times> jsval) list"

datatype error = TypeError | SyntaxError

fun truthy :: "jsval \<Rightarrow> bool" where
  "truthy JUndefined = False"
| "truthy JNull = False"
| "truthy (JBool b) = b"
| "truthy (JNum n) = (n \<noteq> Fin 0 \<and> n \<noteq> NaN)"
| "truthy (JStr s) = (s \<noteq> [])"
| "truthy (JArr xs) = True"
| "truthy (JObj kvs) = True"

fun is_number :: "jsval \<Rightarrow> bool" where
  \<comment> \<open>\<^verbatim>\<open>typeof v === 'number'\<close>\<close>
  "is_number (JNum n) = True"
| "is_number v = False"

fun Array_isArray :: "jsval \<Rightarrow> bool" where
  "Array_isArray (JArr xs) = True"
| "Array_isArray v = False"

fun strict_eq :: "jsval \<Rightarrow> jsval \<Rightarrow> bool" where
  \<comment> \<open>\<^verbatim>\<open>a === b\<close>. Two arrays or objects are equal only when they are the same reference;
      a value read from a record is never the reference of an enum member, so that case is
      \<open>False\<close>.\<close>
  "strict_eq JUndefined JUndefined = True"
| "strict_eq JNull JNull = True"
| "strict_eq (JBool a) (JBool b) = (a = b)"
| "strict_eq (JNum a) (JNum b) = (a = b \<and> a \<noteq> NaN)"
| "strict_eq (JStr a) (JStr b) = (a = b)"
| "strict_eq a b = False"

fun same_value_zero :: "jsval \<Rightarrow> jsval \<Rightarrow> bool" where
  \<comment> \<open>The comparison of \<^verbatim>\<open>Array.prototype.includes\<close>: as \<^verbatim>\<open>===\<close>, but \<^verbatim>\<open>NaN\<close> is found.\<close>
  "same_value_zero JUndefined JUndefined = True"
| "same_value_zero JNull JNull = True"
| "same_value_zero (JBool a) (JBool b) = (a = b)"
| "same_value_zero (JNum a) (JNum b) = (a = b)"
| "same_value_zero (JStr a) (JStr b) = (a = b)"
| "same_value_zero a b = False"

definition Array_includes :: "jsval list \<Rightarrow> jsval \<Rightarrow> bool" where
  "Array_includes xs v = list_ex (\<lambda>x. same_value_zero x v) xs"

subsection \<open>Coercions: \<^verbatim>\<open>String(v)\<close> and \<^verbatim>\<open>Number(v)\<close>\<close>

text \<open>
  \<^verbatim>\<open>ToString\<close> of ECMA-262, which \<^verbatim>\<open>String(v)\<close> and a template literal apply. The
  decimal rendering of a number (\<^verbatim>\<open>Number::toString\<close>) is the platform's, passed as
  \<open>nts\<close>.

  An object or array is first made a primitive (\<^verbatim>\<open>OrdinaryToPrimitive\<close>), by its methods
  \<^verbatim>\<open>toString\<close> and \<^verbatim>\<open>valueOf\<close>, in this order or the other; a method that is not
  callable, or returns an object, is passed over, and a \<^verbatim>\<open>TypeError\<close> is thrown when
  neither gives a primitive. On a value that \<^verbatim>\<open>JSON.parse\<close> returned:
  \<^item> the inherited \<^verbatim>\<open>valueOf\<close> returns the object itself, and an own property
    \<^verbatim>\<open>valueOf\<close> is not callable, so \<^verbatim>\<open>valueOf\<close> never gives the primitive;
  \<^item> a plain object without an own property \<^verbatim>\<open>toString\<close> inherits the one that returns
    \<^verbatim>\<open>[object Object]\<close>; with an own property \<^verbatim>\<open>toString\<close>, which is not callable, the
    conversion throws;
  \<^item> an array inherits the \<^verbatim>\<open>toString\<close> that joins its elements with commas, \<^verbatim>\<open>null\<close>
    and \<^verbatim>\<open>undefined\<close> as the empty string and any other element by \<^verbatim>\<open>ToString\<close>, which
    throws when an element's conversion does.
  So the outcome is the same for both orders of the methods.
\<close>

fun join :: "string \<Rightarrow> string list \<Rightarrow> string" where
  "join sep [] = []"
| "join sep [x] = x"
| "join sep (x # y # ys) = x @ sep @ join sep (y # ys)"

fun collect :: "(error + 'a) list \<Rightarrow> error + 'a list" where
  \<comment> \<open>the results of a sequence of steps, up to the first that throws\<close>
  "collect [] = Inr []"
| "collect (r # rs) =
     (case r of
        Inl e \<Rightarrow> Inl e
      | Inr a \<Rightarrow> (case collect rs of Inl e \<Rightarrow> Inl e | Inr as \<Rightarrow> Inr (a # as)))"

fun to_string :: "(jsnum \<Rightarrow> string) \<Rightarrow> jsval \<Rightarrow> error + string" where
  "to_string nts JUndefined = Inr ''undefined''"
| "to_string nts JNull = Inr ''null''"
| "to_string nts (JBool b) = Inr (if b then ''true'' else ''false'')"
| "to_string nts (JNum n) = Inr (nts n)"
| "to_string nts (JStr s) = Inr s"
| "to_string nts (JArr xs) =
     (case collect (map (\<lambda>x. if x = JUndefined \<or> x = JNull then Inr [] else to_string nts x) xs) of
        Inl e \<Rightarrow> Inl e
      | Inr ss \<Rightarrow> Inr (join '','' ss))"
| "to_string nts (JObj kvs) =
     (if map_of kvs ''toString'' = None then Inr ''[object Object]'' else Inl TypeError)"

text \<open>
  \<^verbatim>\<open>StringToNumber\<close> of ECMA-262: the string is trimmed of white space; the empty string
  is 0; a decimal literal (optional sign, digits with an optional fraction and exponent, or
  \<^verbatim>\<open>Infinity\<close>) or an unsigned binary, octal or hexadecimal integer literal is its
  mathematical value, rounded; anything else is \<^verbatim>\<open>NaN\<close>.
\<close>

definition str_white_space :: "char \<Rightarrow> bool" where
  "str_white_space c = (of_char c \<in> {9, 10, 11, 12, 13, 32, 160 :: nat})"

definition trim :: "string \<Rightarrow> string" where
  "trim s = rev (dropWhile str_white_space (rev (dropWhile str_white_space s)))"

definition digit_value :: "int \<Rightarrow> char \<Rightarrow> int option" where
  \<comment> \<open>the value of a digit of the given radix\<close>
  "digit_value radix c =
     (let n = of_char c :: int;
          d = (if 48 \<le> n \<and> n \<le> 57 then n - 48
               else if 65 \<le> n \<and> n \<le> 70 then n - 55
               else if 97 \<le> n \<and> n \<le> 102 then n - 87
               else radix)
      in if d < radix then Some d else None)"

definition is_digit :: "int \<Rightarrow> char \<Rightarrow> bool" where
  "is_digit radix c = (digit_value radix c \<noteq> None)"

definition digits_value :: "int \<Rightarrow> string \<Rightarrow> int" where
  "digits_value radix ds =
     foldl (\<lambda>acc c. acc * radix + (case digit_value radix c of Some d \<Rightarrow> d | None \<Rightarrow> 0)) 0 ds"

definition exponent_part :: "string \<Rightarrow> int option" where
  \<comment> \<open>what follows the digits: nothing, or \<^verbatim>\<open>e\<close>, an optional sign and digits\<close>
  "exponent_part s =
     (case s of
        [] \<Rightarrow> Some 0
      | c # r \<Rightarrow>
          if c = CHR ''e'' \<or> c = CHR ''E'' then
            (case (case r of
                     [] \<Rightarrow> (False, r)
                   | sg # r' \<Rightarrow>
                       if sg = CHR ''-'' then (True, r')
                       else if sg = CHR ''+'' then (False, r') else (False, r)) of
               (neg, ds) \<Rightarrow>
                 if ds \<noteq> [] \<and> list_all (is_digit 10) ds then
                   Some (if neg then - digits_value 10 ds else digits_value 10 ds)
                 else None)
          else None)"

definition unsigned_decimal :: "string \<Rightarrow> rat option" where
  "unsigned_decimal s =
     (let ip = takeWhile (is_digit 10) s;
          r1 = dropWhile (is_digit 10) s;
          has_dot = (r1 \<noteq> [] \<and> hd r1 = CHR ''.'');
          fp = (if has_dot then takeWhile (is_digit 10) (tl r1) else []);
          r2 = (if has_dot then dropWhile (is_digit 10) (tl r1) else r1)
      in if ip = [] \<and> fp = [] then None
         else (case exponent_part r2 of
                 None \<Rightarrow> None
               | Some ex \<Rightarrow>
                   Some ((of_int (digits_value 10 ip)
                          + of_int (digits_value 10 fp) / 10 ^ length fp) * 10 powi ex)))"

definition decimal_literal :: "string \<Rightarrow> jsnum" where
  "decimal_literal s =
     (case (case s of
              [] \<Rightarrow> (False, s)
            | sg # r \<Rightarrow>
                if sg = CHR ''-'' then (True, r)
                else if sg = CHR ''+'' then (False, r) else (False, s)) of
        (neg, body) \<Rightarrow>
          if body = ''Infinity'' then (if neg then NInf else PInf)
          else (case unsigned_decimal body of
                  None \<Rightarrow> NaN
                | Some q \<Rightarrow> round_double (if neg then - q else q)))"

definition non_decimal_literal :: "string \<Rightarrow> jsnum option" where
  "non_decimal_literal s =
     (case s of
        z # x # ds \<Rightarrow>
          (let radix =
                 (if x = CHR ''x'' \<or> x = CHR ''X'' then 16
                  else if x = CHR ''o'' \<or> x = CHR ''O'' then 8
                  else if x = CHR ''b'' \<or> x = CHR ''B'' then 2 else 0 :: int)
           in if z = CHR ''0'' \<and> 0 < radix \<and> ds \<noteq> [] \<and> list_all (is_digit radix) ds
              then Some (round_double (of_int (digits_value radix ds)))
              else None)
      | _ \<Rightarrow> None)"

definition string_to_number :: "string \<Rightarrow> jsnum" where
  "string_to_number s =
     (let t = trim s
      in if t = [] then Fin 0
         else (case non_decimal_literal t of Some n \<Rightarrow> n | None \<Rightarrow> decimal_literal t))"

fun to_number :: "(jsnum \<Rightarrow> string) \<Rightarrow> jsval \<Rightarrow> error + jsnum" where
  \<comment> \<open>\<^verbatim>\<open>Number(v)\<close>; an array or object is first made a primitive, which is a string\<close>
  "to_number nts JUndefined = Inr NaN"
| "to_number nts JNull = Inr (Fin 0)"
| "to_number nts (JBool b) = Inr (if b then Fin 1 else Fin 0)"
| "to_number nts (JNum n) = Inr n"
| "to_number nts (JStr s) = Inr (string_to_number s)"
| "to_number nts (JArr xs) =
     (case to_string nts (JArr xs) of Inl e \<Rightarrow> Inl e | Inr s \<Rightarrow> Inr (string_to_number s))"
| "to_number nts (JObj kvs) =
     (case to_string nts (JObj kvs) of Inl e \<Rightarrow> Inl e | Inr s \<Rightarrow> Inr (string_to_number s))"

subsection \<open>The platform and its effects\<close>

text \<open>
  What the program asks of the browser. \<^verbatim>\<open>JSON.parse\<close> either returns a value or throws
  a \<^verbatim>\<open>SyntaxError\<close>. \<^verbatim>\<open>Date.parse\<close> gives the time value of a date string, in
  milliseconds since the epoch, or none (\<^verbatim>\<open>NaN\<close>) for a string it does not recognise; the
  formats it recognises beyond ISO 8601 are the implementation's. \<open>Date_now k\<close> is what
  the clock shows at its \<open>k\<close>-th reading and \<open>randomUUID k\<close> the \<open>k\<close>-th identifier that
  \<^verbatim>\<open>crypto.randomUUID()\<close> draws.
\<close>

record platform =
  JSON_parse :: "string \<Rightarrow> error + jsval"
  Date_parse :: "string \<Rightarrow> int option"
  Number_toString :: "jsnum \<Rightarrow> string"
  Date_now :: "nat \<Rightarrow> int"
  randomUUID :: "nat \<Rightarrow> string"

text \<open>
  The state the program changes as it runs: the lines written to the console, and how
  often the clock and the identifier generator have been used.
\<close>

datatype console_line = console_warn string | console_error string error

record world =
  console :: "console_line list"
  clock_reads :: nat
  uuids_drawn :: nat

text \<open>
  A computation runs in a world and either returns a value or throws; it leaves the world
  changed in both cases.
\<close>

type_synonym 'a js = "world \<Rightarrow> (error + 'a) \<times> world"

definition js_return :: "'a \<Rightarrow> 'a js" where
  "js_return a w = (Inr a, w)"

definition js_of :: "error + 'a \<Rightarrow> 'a js" where
  \<comment> \<open>a step that changes nothing in the world\<close>
  "js_of r w = (r, w)"

definition js_bind :: "'a js \<Rightarrow> ('a \<Rightarrow> 'b js) \<Rightarrow> 'b js" where
  "js_bind m f w = (case m w of (Inl e, w') \<Rightarrow> (Inl e, w') | (Inr a, w') \<Rightarrow> f a w')"

definition js_try_catch :: "'a js \<Rightarrow> (error \<Rightarrow> 'a js) \<Rightarrow> 'a js" where
  "js_try_catch m handler w = (case m w of (Inl e, w') \<Rightarrow> handler e w' | (Inr a, w') \<Rightarrow> (Inr a, w'))"

definition warn :: "string \<Rightarrow> unit js" where
  "warn msg w = (Inr (), w\<lparr>console := console w @ [console_warn msg]\<rparr>)"

definition log_error :: "string \<Rightarrow> error \<Rightarrow> unit js" where
  "log_error msg e w = (Inr (), w\<lparr>console := console w @ [console_error msg e]\<rparr>)"

definition new_Date_now :: "platform \<Rightarrow> int js" where
  \<comment> \<open>\<^verbatim>\<open>new Date()\<close>\<close>
  "new_Date_now P w = (Inr (Date_now P (clock_reads w)), w\<lparr>clock_reads := Suc (clock_reads w)\<rparr>)"

definition crypto_randomUUID :: "platform \<Rightarrow> string js" where
  "crypto_randomUUID P w = (Inr (randomUUID P (uuids_drawn w)), w\<lparr>uuids_drawn := Suc (uuids_drawn w)\<rparr>)"

fun property_of :: "jsval \<Rightarrow> string \<Rightarrow> jsval" where
  \<comment> \<open>\<^verbatim>\<open>t.k\<close> for a \<open>t\<close> that is neither \<^verbatim>\<open>null\<close> nor \<^verbatim>\<open>undefined\<close>, and \<open>k\<close> one of the
      five keys the program reads (\<^verbatim>\<open>id\<close>, \<^verbatim>\<open>description\<close>, \<^verbatim>\<open>amount\<close>, \<^verbatim>\<open>type\<close>,
      \<^verbatim>\<open>date\<close>): none is a property of a number, string, boolean or array.\<close>
  "property_of (JObj kvs) k = (case map_of kvs k of Some v \<Rightarrow> v | None \<Rightarrow> JUndefined)"
| "property_of v k = JUndefined"

definition get :: "jsval \<Rightarrow> string \<Rightarrow> jsval js" where
  \<comment> \<open>reading a property of \<^verbatim>\<open>null\<close> or \<^verbatim>\<open>undefined\<close> throws a \<^verbatim>\<open>TypeError\<close>\<close>
  "get t k w =
     (if t = JNull \<or> t = JUndefined then (Inl TypeError, w) else (Inr (property_of t k), w))"

primrec map_js :: "('a \<Rightarrow> 'b js) \<Rightarrow> 'a list \<Rightarrow> 'b list js" where
  \<comment> \<open>\<^verbatim>\<open>xs.map(f)\<close>: from left to right, abandoned when a call throws\<close>
  "map_js f [] = js_return []"
| "map_js f (x # xs) = js_bind (f x) (\<lambda>y. js_bind (map_js f xs) (\<lambda>ys. js_return (y # ys)))"

subsection \<open>Dates\<close>

text \<open>
  \<^verbatim>\<open>new Date(v)\<close> for a value that is not a \<^verbatim>\<open>Date\<close>: a string is parsed; an array or a
  plain object is made a primitive, which throws or gives a string, and the string is
  parsed; anything else is made a number and clipped to the range of time values. \<open>None\<close>
  is the invalid date, whose \<^verbatim>\<open>getTime()\<close> is \<^verbatim>\<open>NaN\<close>.
\<close>

definition time_clip :: "jsnum \<Rightarrow> int option" where
  "time_clip n =
     (case n of
        Fin q \<Rightarrow>
          if \<bar>q\<bar> \<le> 8640000000000000 then Some (if 0 \<le> q then \<lfloor>q\<rfloor> else \<lceil>q\<rceil>) else None
      | _ \<Rightarrow> None)"

fun new_Date :: "platform \<Rightarrow> jsval \<Rightarrow> error + int option" where
  "new_Date P (JStr s) = Inr (Date_parse P s)"
| "new_Date P (JArr xs) =
     (case to_string (Number_toString P) (JArr xs) of
        Inl e \<Rightarrow> Inl e
      | Inr s \<Rightarrow> Inr (Date_parse P s))"
| "new_Date P (JObj kvs) =
     (case to_string (Number_toString P) (JObj kvs) of
        Inl e \<Rightarrow> Inl e
      | Inr s \<Rightarrow> Inr (Date_parse P s))"
| "new_Date P v =
     (case to_number (Number_toString P) v of
        Inl e \<Rightarrow> Inl e
      | Inr n \<Rightarrow> Inr (time_clip n))"

subsection \<open>The Transaction type\<close>

text \<open>
  \<^verbatim>\<open>./types\<close> is not among the sources. \<^verbatim>\<open>App.tsx\<close> uses two things of it: the type
  \<^verbatim>\<open>Transaction\<close>, whose five fields the initializer builds (lines 37-43), and the enum
  object \<^verbatim>\<open>TransactionType\<close>, of which it reads the members \<^verbatim>\<open>INCOME\<close> and
  \<^verbatim>\<open>EXPENSE\<close> and \<^verbatim>\<open>Object.values(TransactionType)\<close>. The enum is a parameter of the
  model.

  \<^verbatim>\<open>Omit<Transaction, 'id' | 'date'>\<close> is the record \<open>new_transaction\<close>, which
  \<open>transaction\<close> extends. The fields \<open>amount\<close> and \<open>type_t\<close> hold any value: the
  aggregation tests both at run time.
\<close>

record TransactionType =
  INCOME :: jsval
  EXPENSE :: jsval
  Object_values :: "jsval list"

record new_transaction =
  description :: string
  amount :: jsval
  type_t :: jsval

record transaction = new_transaction +
  id_t :: string
  date :: int

subsection \<open>The initializer of the state (lines 10-55)\<close>

text \<open>
  Lines 19-29, the date of one element \<open>t\<close> of the parsed array:
  \<^verbatim>\<open>
  let parsedDate;
  if (t && t.date) {
    parsedDate = new Date(t.date);
    if (isNaN(parsedDate.getTime())) {
      console.warn(`Invalid date format for transaction id "${t.id}", value "${t.date}". Using current date as fallback.`);
      parsedDate = new Date();
    }
  } else {
    console.warn(`Missing or invalid date for transaction (id: ${t.id}). Using current date as fallback.`);
    parsedDate = new Date();
  }
  \<close>
\<close>

definition invalid_date_message :: "string \<Rightarrow> string \<Rightarrow> string" where
  \<open>invalid_date_message i d =
     ''Invalid date format for transaction id "'' @ i @ ''", value "'' @ d
       @ ''". Using current date as fallback.''\<close>

definition missing_date_message :: "string \<Rightarrow> string" where
  "missing_date_message i =
     ''Missing or invalid date for transaction (id: '' @ i @ ''). Using current date as fallback.''"

definition missing_date :: "platform \<Rightarrow> jsval \<Rightarrow> int js" where
  \<comment> \<open>the \<^verbatim>\<open>else\<close> branch, lines 27-28; the template literal is evaluated, and may throw,
      before \<^verbatim>\<open>console.warn\<close> is called\<close>
  "missing_date P t =
     js_bind (get t ''id'') (\<lambda>tid.
     js_bind (js_of (to_string (Number_toString P) tid)) (\<lambda>i.
     js_bind (warn (missing_date_message i)) (\<lambda>_.
     new_Date_now P)))"

definition parsedDate :: "platform \<Rightarrow> jsval \<Rightarrow> int js" where
  "parsedDate P t =
     (if truthy t then
        js_bind (get t ''date'') (\<lambda>tdate.
          if truthy tdate then
            js_bind (js_of (new_Date P tdate)) (\<lambda>parsed.
              case parsed of
                Some ms \<Rightarrow> js_return ms
              | None \<Rightarrow>
                  js_bind (get t ''id'') (\<lambda>tid.
                  js_bind (js_of (to_string (Number_toString P) tid)) (\<lambda>i.
                  js_bind (js_of (to_string (Number_toString P) tdate)) (\<lambda>d.
                  js_bind (warn (invalid_date_message i d)) (\<lambda>_.
                  new_Date_now P)))))
          else missing_date P t)
      else missing_date P t)"

text \<open>
  Lines 32-43, the other fields and the record built from them:
  \<^verbatim>\<open>
  const id = String(t.id || crypto.randomUUID());
  const description = String(t.description || "N/A");
  const amount = Number(t.amount || 0);
  const type = (Object.values(TransactionType).includes(t.type)) ? t.type : TransactionType.EXPENSE;
  return { id, description, amount, type, date: parsedDate };
  \<close>
\<close>

definition or_else :: "jsval \<Rightarrow> jsval \<Rightarrow> jsval" where
  \<comment> \<open>\<^verbatim>\<open>a || b\<close> for a \<open>b\<close> without effects\<close>
  "or_else a b = (if truthy a then a else b)"

definition map_callback :: "platform \<Rightarrow> TransactionType \<Rightarrow> jsval \<Rightarrow> transaction js" where
  "map_callback P E t =
     js_bind (parsedDate P t) (\<lambda>parsed.
     js_bind (get t ''id'') (\<lambda>tid.
     js_bind (if truthy tid then js_return tid
              else js_bind (crypto_randomUUID P) (\<lambda>u. js_return (JStr u))) (\<lambda>id_or_fresh.
     js_bind (js_of (to_string (Number_toString P) id_or_fresh)) (\<lambda>id.
     js_bind (get t ''description'') (\<lambda>tdescription.
     js_bind (js_of (to_string (Number_toString P) (or_else tdescription (JStr ''N/A'')))) (\<lambda>description.
     js_bind (get t ''amount'') (\<lambda>tamount.
     js_bind (js_of (to_number (Number_toString P) (or_else tamount (JNum (Fin 0))))) (\<lambda>amount.
     js_bind (get t ''type'') (\<lambda>ttype.
     js_return
       \<lparr>description = description,
        amount = JNum amount,
        type_t = (if Array_includes (Object_values E) ttype then ttype else EXPENSE E),
        id_t = id,
        date = parsed\<rparr>)))))))))"

text \<open>
  Lines 11-54. \<open>stored\<close> is what \<^verbatim>\<open>localStorage.getItem('transactions')\<close> returned:
  \<open>None\<close> for \<^verbatim>\<open>null\<close>. The closing \<^verbatim>\<open>.filter(t => t !== null)\<close> of line 44 keeps every
  element, since each is the object of lines 37-43.
  \<^verbatim>\<open>
  if (savedTransactions) {
    try {
      const rawParsedData = JSON.parse(savedTransactions);
      if (Array.isArray(rawParsedData)) {
        return rawParsedData.map(t => { ... }).filter(t => t !== null);
      } else {
        console.warn('Transactions from localStorage were not in the expected array format. Initializing with empty list.');
        return [];
      }
    } catch (error) {
      console.error('Failed to parse transactions from localStorage:', error);
      return [];
    }
  }
  return [];
  \<close>
\<close>

definition try_block :: "platform \<Rightarrow> TransactionType \<Rightarrow> string \<Rightarrow> transaction list js" where
  "try_block P E savedTransactions =
     js_bind (\<lambda>w. (JSON_parse P savedTransactions, w)) (\<lambda>rawParsedData.
       case rawParsedData of
         JArr typedTransactions \<Rightarrow> map_js (map_callback P E) typedTransactions
       | _ \<Rightarrow>
           js_bind (warn ''Transactions from localStorage were not in the expected array format. Initializing with empty list.'') (\<lambda>_.
           js_return []))"

definition initial_transactions ::
  "platform \<Rightarrow> TransactionType \<Rightarrow> string option \<Rightarrow> transaction list js" where
  "initial_transactions P E stored =
     (case stored of
        None \<Rightarrow> js_return []
      | Some savedTransactions \<Rightarrow>
          if savedTransactions \<noteq> [] then
            js_try_catch (try_block P E savedTransactions)
              (\<lambda>e. js_bind (log_error ''Failed to parse transactions from localStorage:'' e) (\<lambda>_.
                   js_return []))
          else js_return [])"

subsection \<open>The mutators (lines 61-72)\<close>

text \<open>
  \<^verbatim>\<open>
  setTransactions(prevTransactions => [
    ...prevTransactions,
    { ...newTransaction, id: crypto.randomUUID(), date: new Date() },
  ]);

  setTransactions(prevTransactions =>
    prevTransactions.filter(transaction => transaction.id !== id));
  \<close>
  Both are the function that React applies to the current collection.
\<close>

definition addTransaction ::
  "platform \<Rightarrow> new_transaction \<Rightarrow> transaction list \<Rightarrow> transaction list js" where
  "addTransaction P newTransaction prevTransactions =
     js_bind (crypto_randomUUID P) (\<lambda>u.
     js_bind (new_Date_now P) (\<lambda>now.
     js_return
       (prevTransactions @
          [\<lparr>description = description newTransaction, amount = amount newTransaction,
            type_t = type_t newTransaction, id_t = u, date = now\<rparr>])))"

definition deleteTransaction :: "string \<Rightarrow> transaction list \<Rightarrow> transaction list" where
  "deleteTransaction i prevTransactions = filter (\<lambda>transaction. id_t transaction \<noteq> i) prevTransactions"

subsection \<open>The aggregation (lines 74-92)\<close>

text \<open>
  \<^verbatim>\<open>
  let income = 0;
  let expenses = 0;
  transactions.forEach(transaction => {
    if (transaction && typeof transaction.amount === 'number') {
      if (transaction.type === TransactionType.INCOME) {
        income += transaction.amount;
      } else {
        expenses += transaction.amount;
      }
    }
  });
  return { totalIncome: income, totalExpenses: expenses, balance: income - expenses };
  \<close>
  The state of the loop is the pair \<open>(income, expenses)\<close>. An element of the collection is
  an object, which is truthy: the test \<^verbatim>\<open>transaction &&\<close> is true for each.
\<close>

record totals =
  totalIncome :: jsnum
  totalExpenses :: jsnum
  balance :: jsnum

fun the_number :: "jsval \<Rightarrow> jsnum" where
  \<comment> \<open>the amount read where \<^verbatim>\<open>typeof\<close> has found a number\<close>
  "the_number (JNum n) = n"
| "the_number v = NaN"

fun forEach_body :: "TransactionType \<Rightarrow> jsnum \<times> jsnum \<Rightarrow> transaction \<Rightarrow> jsnum \<times> jsnum" where
  "forEach_body E (income, expenses) t =
     (if is_number (amount t) then
        if strict_eq (type_t t) (INCOME E) then (js_add income (the_number (amount t)), expenses)
        else (income, js_add expenses (the_number (amount t)))
      else (income, expenses))"

definition aggregate :: "TransactionType \<Rightarrow> transaction list \<Rightarrow> totals" where
  "aggregate E transactions =
     (case foldl (forEach_body E) (Fin 0, Fin 0) transactions of
        (income, expenses) \<Rightarrow>
          \<lparr>totalIncome = income, totalExpenses = expenses, balance = js_sub income expenses\<rparr>)"

text \<open>The sum of a sequence of numbers, as JavaScript computes it from left to right.\<close>

definition js_sum :: "jsnum list \<Rightarrow> jsnum" where
  "js_sum ns = foldl js_add (Fin 0) ns"

definition income_amounts :: "TransactionType \<Rightarrow> transaction list \<Rightarrow> jsnum list" where
  "income_amounts E ts =
     map (\<lambda>t. the_number (amount t))
       (filter (\<lambda>t. is_number (amount t) \<and> strict_eq (type_t t) (INCOME E)) ts)"

definition expense_amounts :: "TransactionType \<Rightarrow> transaction list \<Rightarrow> jsnum list" where
  "expense_amounts E ts =
     map (\<lambda>t. the_number (amount t))
       (filter (\<lambda>t. is_number (amount t) \<and> \<not> strict_eq (type_t t) (INCOME E)) ts)"

subsection \<open>A platform for the examples\<close>

text \<open>
  The worked examples below run on a deterministic platform: a clock that advances by one
  millisecond at each reading, identifiers numbered from 0, the decimal rendering of whole
  numbers, and \<^verbatim>\<open>JSON.parse\<close> and \<^verbatim>\<open>Date.parse\<close> given by what they return on the strings
  the examples use. The enum of the examples has the members \<^verbatim>\<open>'INCOME'\<close> and
  \<^verbatim>\<open>'EXPENSE'\<close>.
\<close>

function decimal :: "nat \<Rightarrow> string" where
  "decimal n =
     (if n < 10 then [char_of (48 + n)] else decimal (n div 10) @ [char_of (48 + n mod 10)])"
  by pat_completeness auto
termination
  by (relation "measure id") auto

declare decimal.simps [simp del]

definition example_Number_toString :: "jsnum \<Rightarrow> string" where
  "example_Number_toString n =
     (case n of
        NaN \<Rightarrow> ''NaN''
      | PInf \<Rightarrow> ''Infinity''
      | NInf \<Rightarrow> ''-Infinity''
      | Fin q \<Rightarrow> (if q < 0 then ''-'' else []) @ decimal (nat \<lfloor>\<bar>q\<bar>\<rfloor>))"

definition example_JSON_parse :: "string \<Rightarrow> error + jsval" where
  \<open>example_JSON_parse s =
     (if s = ''[{"id":"a","amount":"50","type":"income"}]'' then
        Inr (JArr [JObj [(''id'', JStr ''a''), (''amount'', JStr ''50''), (''type'', JStr ''income'')]])
      else if s = ''[{"id":"a","amount":5},null]'' then
        Inr (JArr [JObj [(''id'', JStr ''a''), (''amount'', JNum (Fin 5))], JNull])
      else if s = ''[{"id":{"toString":null}}]'' then
        Inr (JArr [JObj [(''id'', JObj [(''toString'', JNull)])]])
      else if s = ''{"id":"a"}'' then Inr (JObj [(''id'', JStr ''a'')])
      else Inl SyntaxError)\<close>

definition example_Date_parse :: "string \<Rightarrow> int option" where
  "example_Date_parse s = (if s = ''2024-01-15T12:00:00.000Z'' then Some 1705320000000 else None)"

definition example_platform :: platform where
  "example_platform =
     \<lparr>JSON_parse = example_JSON_parse, Date_parse = example_Date_parse,
      Number_toString = example_Number_toString,
      Date_now = (\<lambda>k. 1762150000000 + int k),
      randomUUID = (\<lambda>k. ''uuid-'' @ decimal k)\<rparr>"

definition example_enum :: TransactionType where
  "example_enum =
     \<lparr>INCOME = JStr ''INCOME'', EXPENSE = JStr ''EXPENSE'',
      Object_values = [JStr ''INCOME'', JStr ''EXPENSE'']\<rparr>"

definition start :: world where
  "start = \<lparr>console = [], clock_reads = 0, uuids_drawn = 0\<rparr>"

subsection \<open>Values that convert\<close>

text \<open>
  The values whose conversion to a string, to a number or to a date does not throw: every
  primitive, a plain object without an own property \<^verbatim>\<open>toString\<close>, and an array of such
  values. \<open>fallback_world\<close> is the world after the warning and the reading of the clock
  of a date fallback.
\<close>

fun converts :: "jsval \<Rightarrow> bool" where
  "converts (JObj kvs) = (map_of kvs ''toString'' = None)"
| "converts (JArr xs) = list_all (\<lambda>x. converts x) xs"
| "converts v = True"

definition repairable :: "jsval \<Rightarrow> bool" where
  \<comment> \<open>an element of the stored array on which the callback of lines 18-44 does not throw\<close>
  "repairable t =
     (t \<noteq> JNull \<and> t \<noteq> JUndefined \<and> converts (property_of t ''id'')
      \<and> converts (property_of t ''description'') \<and> converts (property_of t ''amount'')
      \<and> converts (property_of t ''date''))"

definition fallback_world :: "string \<Rightarrow> world \<Rightarrow> world" where
  "fallback_world msg w =
     w\<lparr>console := console w @ [console_warn msg], clock_reads := Suc (clock_reads w)\<rparr>"

text \<open>A small collection for the examples.\<close>

definition groceries :: transaction where
  "groceries = \<lparr>description = ''Groceries'', amount = JNum (Fin 200), type_t = JStr ''EXPENSE'',
                 id_t = ''b'', date = 1705320000000\<rparr>"
definition salary :: transaction where
  "salary = \<lparr>description = ''Salary'', amount = JNum (Fin 1000), type_t = JStr ''INCOME'',
                 id_t = ''a'', date = 1705320000000\<rparr>"
definition rent :: transaction where
  "rent = \<lparr>description = ''Rent'', amount = JNum (Fin 700), type_t = JStr ''EXPENSE'',
                 id_t = ''c'', date = 1705320000000\<rparr>"

definition bonus :: transaction where
  "bonus = \<lparr>description = ''Bonus'', amount = JNum (Fin 300), type_t = JStr ''INCOME'',
                 id_t = ''a'', date = 1705406400000\<rparr>"

subsection \<open>Whole amounts\<close>

text \<open>
  An amount is whole when it is not a number, and so left out of the totals, or a finite
  number without a fraction; its magnitude is its absolute value. Three amounts with a
  fraction, for an example: the doubles nearest to 0.1, 0.2 and 0.3.
\<close>

fun whole :: "jsval \<Rightarrow> bool" where
  "whole (JNum (Fin q)) = (q \<in> \<int>)"
| "whole (JNum n) = False"
| "whole v = True"

fun magnitude :: "jsval \<Rightarrow> rat" where
  "magnitude (JNum (Fin q)) = \<bar>q\<bar>"
| "magnitude v = 0"

fun number_value :: "jsnum \<Rightarrow> rat" where
  "number_value (Fin q) = q"
| "number_value n = 0"

definition tenth :: transaction where
  "tenth = \<lparr>description = ''Stamp'', amount = JNum (string_to_number ''0.1''),
            type_t = JStr ''EXPENSE'', id_t = ''d'', date = 1705320000000\<rparr>"
definition fifth :: transaction where
  "fifth = \<lparr>description = ''Envelope'', amount = JNum (string_to_number ''0.2''),
            type_t = JStr ''EXPENSE'', id_t = ''e'', date = 1705320000000\<rparr>"
definition three_tenths :: transaction where
  "three_tenths = \<lparr>description = ''Pencil'', amount = JNum (string_to_number ''0.3''),
            type_t = JStr ''EXPENSE'', id_t = ''f'', date = 1705320000000\<rparr>"


section \<open>Properties\<close>

subsection \<open>The number model\<close>

text \<open>
  \<open>ilog2\<close> is the binary exponent of a positive rational, and a finite result of
  \<open>round_double\<close> is a whole multiple of the unit in the last place, at most half a unit
  away from the exact value. Some values, as a check against what JavaScript prints:
  \<^verbatim>\<open>0.1\<close> is \<open>3602879701896397 / 2 ^ 55\<close>, and \<open>2 ^ 53 + 1\<close> is halfway between two
  doubles and goes to the even one.
\<close>

lemma ilog2_bounds:
  assumes "0 < a"
  shows "2 powi ilog2 a \<le> a \<and> a < 2 powi (ilog2 a + 1)"
proof (cases "1 \<le> a")
  case True
  define n where "n = \<lfloor>a\<rfloor>"
  have n1: "1 \<le> n" using True by (simp add: n_def le_floor_iff)
  then have "0 < n" by simp
  from bitlen_bounds [OF this] have lo: "2 ^ nat (bitlen n - 1) \<le> n" and hi: "n < 2 ^ nat (bitlen n)"
    by auto
  have b1: "1 \<le> bitlen n" using n1 bitlen_eq_zero_iff [of n] bitlen_nonneg [of n] by linarith
  have e: "ilog2 a = bitlen n - 1" using True by (simp add: ilog2_def n_def)
  have "(2::rat) powi (bitlen n - 1) = of_int (2 ^ nat (bitlen n - 1))"
    using b1 by (simp add: power_int_def)
  also have "\<dots> \<le> of_int n" using lo by (simp only: of_int_le_iff)
  also have "\<dots> \<le> a" by (simp add: n_def)
  finally have low: "2 powi ilog2 a \<le> a" by (simp add: e)
  have "n + 1 \<le> 2 ^ nat (bitlen n)" using hi by simp
  then have "(of_int (n + 1) :: rat) \<le> of_int (2 ^ nat (bitlen n))" by (simp only: of_int_le_iff)
  moreover have "a < of_int (n + 1)" unfolding n_def by linarith
  moreover have "(2::rat) powi (bitlen n) = of_int (2 ^ nat (bitlen n))"
    using b1 by (simp add: power_int_def)
  ultimately have "a < 2 powi (ilog2 a + 1)" by (simp add: e)
  with low show ?thesis by simp
next
  case False
  define m where "m = \<lceil>1 / a\<rceil> - 1"
  have inv: "1 < 1 / a" using False assms by simp
  then have m1: "1 \<le> m" unfolding m_def by (simp add: less_ceiling_iff)
  then have "0 < m" by simp
  from bitlen_bounds [OF this] have lo: "2 ^ nat (bitlen m - 1) \<le> m" and hi: "m < 2 ^ nat (bitlen m)"
    by auto
  have b1: "1 \<le> bitlen m" using m1 bitlen_eq_zero_iff [of m] bitlen_nonneg [of m] by linarith
  have e: "ilog2 a = - bitlen m" using False by (simp add: ilog2_def m_def)
  have up: "1 / a \<le> of_int (m + 1)" by (simp add: m_def)
  have "m + 1 \<le> 2 ^ nat (bitlen m)" using hi by simp
  then have "(of_int (m + 1) :: rat) \<le> of_int (2 ^ nat (bitlen m))" by (simp only: of_int_le_iff)
  with up have "1 / a \<le> 2 ^ nat (bitlen m)" by simp
  then have "1 / 2 ^ nat (bitlen m) \<le> a"
    using assms by (simp add: field_simps)
  moreover have "(2::rat) powi (- bitlen m) = 1 / 2 ^ nat (bitlen m)"
    using b1 by (simp add: power_int_def field_simps)
  ultimately have low: "2 powi ilog2 a \<le> a" by (simp add: e)
  have "of_int m < 1 / a" unfolding m_def using less_ceiling_iff [of "\<lceil>1 / a\<rceil> - 1" "1 / a"] by simp
  moreover have "(2::rat) ^ nat (bitlen m - 1) \<le> of_int m"
  proof -
    from lo have "(of_int (2 ^ nat (bitlen m - 1)) :: rat) \<le> of_int m" by (simp only: of_int_le_iff)
    then show ?thesis by simp
  qed
  ultimately have "2 ^ nat (bitlen m - 1) < 1 / a" by linarith
  then have "a < 1 / 2 ^ nat (bitlen m - 1)"
    using assms by (simp add: field_simps)
  moreover have "(2::rat) powi (- bitlen m + 1) = 1 / 2 ^ nat (bitlen m - 1)"
    using b1 by (simp add: power_int_def field_simps nat_diff_distrib)
  ultimately have "a < 2 powi (ilog2 a + 1)" by (simp add: e)
  with low show ?thesis by simp
qed

lemma round_even_error: "\<bar>of_int (round_even m) - m\<bar> \<le> 1 / 2"
proof -
  have "of_int \<lfloor>m\<rfloor> \<le> m" and "m < of_int \<lfloor>m\<rfloor> + 1" by linarith+
  then show ?thesis by (auto simp: round_even_def Let_def)
qed

lemma round_double_error:
  assumes "round_double q = Fin r"
  shows "\<exists>n::int. \<bar>r\<bar> = of_int n * 2 powi max (ilog2 \<bar>q\<bar> - 52) (- 1074)
           \<and> \<bar>r - q\<bar> \<le> 2 powi max (ilog2 \<bar>q\<bar> - 52) (- 1074) / 2"
proof (cases "q = 0")
  case True
  with assms have "r = 0" by (simp add: round_double_def)
  with True show ?thesis by (intro exI [of _ 0]) simp
next
  case False
  define u :: rat where "u = 2 powi max (ilog2 \<bar>q\<bar> - 52) (- 1074)"
  define n where "n = round_even (\<bar>q\<bar> / u)"
  have u: "0 < u" by (simp add: u_def)
  have a: "0 \<le> \<bar>q\<bar> / u" using u by simp
  have n0: "0 \<le> n"
  proof -
    have "0 \<le> \<lfloor>\<bar>q\<bar> / u\<rfloor>" using a by simp
    then show ?thesis by (auto simp: n_def round_even_def Let_def)
  qed
  from assms False have r: "r = (if 0 < q then of_int n * u else - (of_int n * u))"
    by (simp add: round_double_def Let_def u_def n_def split: if_splits)
  have "\<bar>of_int n - \<bar>q\<bar> / u\<bar> \<le> 1 / 2" unfolding n_def by (rule round_even_error)
  then have "\<bar>of_int n - \<bar>q\<bar> / u\<bar> * u \<le> 1 / 2 * u" using u by (simp only: mult_le_cancel_right_pos)
  moreover have "\<bar>of_int n - \<bar>q\<bar> / u\<bar> * u = \<bar>of_int n * u - \<bar>q\<bar>\<bar>"
  proof -
    have "\<bar>of_int n - \<bar>q\<bar> / u\<bar> * u = \<bar>(of_int n - \<bar>q\<bar> / u) * u\<bar>"
      using u by (simp add: abs_mult)
    also have "(of_int n - \<bar>q\<bar> / u) * u = of_int n * u - \<bar>q\<bar>"
      using u by (simp add: left_diff_distrib)
    finally show ?thesis .
  qed
  ultimately have err: "\<bar>of_int n * u - \<bar>q\<bar>\<bar> \<le> u / 2" by simp
  have "\<bar>r\<bar> = of_int n * u" using r n0 u by (simp add: abs_mult)
  moreover have "\<bar>r - q\<bar> \<le> u / 2" using r err False by (cases "0 < q") (auto simp: abs_if split: if_splits)
  ultimately show ?thesis unfolding u_def by blast
qed

lemma round_double_examples:
  "round_double (1 / 10) = Fin (3602879701896397 / 36028797018963968)"
  "round_double 9007199254740993 = Fin 9007199254740992"
  "round_double 9007199254740995 = Fin 9007199254740996"
  "round_double (- 5 / 2) = Fin (- 5 / 2)"
  by code_simp+


text \<open>A whole number of magnitude at most \<open>2 ^ 53\<close> is a double: rounding leaves it as it is.\<close>

lemma round_even_of_int [simp]: "round_even (of_int m) = m"
  by (simp add: round_even_def)

lemma round_double_minus: "round_double (- q) = js_negate (round_double q)"
  by (cases "q = 0"; cases "0 < q") (auto simp: round_double_def Let_def)

lemma ilog2_of_int: "0 < n \<Longrightarrow> ilog2 (of_int n) = bitlen n - 1"
  by (simp add: ilog2_def)

lemma round_double_pos_int:
  fixes n :: int
  assumes "0 < n" and "n \<le> 2 ^ 53"
  shows "round_double (of_int n) = Fin (of_int n)"
proof -
  let ?b = "bitlen n"
  from bitlen_bounds [OF assms(1)] have lo: "2 ^ nat (?b - 1) \<le> n" and hi: "n < 2 ^ nat ?b"
    by auto
  have b1: "1 \<le> ?b" using assms(1) bitlen_eq_zero_iff [of n] bitlen_nonneg [of n] by linarith
  from lo assms(2) have le: "(2::int) ^ nat (?b - 1) \<le> 2 ^ 53" by linarith
  have "1 < (2::int)" by simp
  from power_le_imp_le_exp [OF this le] have "nat (?b - 1) \<le> 53" .
  then have b54: "?b \<le> 54" by linarith
  have e: "max (ilog2 (of_int n) - 52) (- 1074) = ?b - 53"
    using b1 by (simp add: ilog2_of_int [OF assms(1)])
  show ?thesis
  proof (cases "?b \<le> 53")
    case True
    define k where "k = nat (53 - ?b)"
    have p: "(2::rat) powi (?b - 53) = 1 / 2 ^ k"
      using True by (simp add: power_int_def k_def field_simps)
    have q: "(of_int n :: rat) / 2 powi (?b - 53) = of_int (n * 2 ^ k)"
      by (simp add: p)
    have "round_even (\<bar>of_int n\<bar> / 2 powi (?b - 53)) = n * 2 ^ k"
      using assms(1) q by (simp del: of_int_mult of_int_power)
    then show ?thesis
      using assms(1) True e by (simp add: round_double_def Let_def p)
  next
    case False
    with b54 have b: "?b = 54" by linarith
    with lo have "2 ^ 53 \<le> n" by simp
    with assms(2) have n: "n = 2 ^ 53" by linarith
    have "(of_int n :: rat) / 2 = of_int (2 ^ 52)" by (simp add: n)
    then have "round_even (\<bar>of_int n\<bar> / 2 powi 1) = 2 ^ 52"
      using assms(1) by (simp del: of_int_power of_int_numeral)
    then show ?thesis
      using assms(1) e b by (simp add: round_double_def Let_def n)
  qed
qed

lemma round_double_exact:
  assumes "q \<in> \<int>" and "\<bar>q\<bar> \<le> 2 ^ 53"
  shows "round_double q = Fin q"
proof -
  from assms(1) obtain z :: int where q: "q = of_int z" by (auto elim: Ints_cases)
  from assms(2) have z: "\<bar>z\<bar> \<le> 2 ^ 53"
    unfolding q by (metis of_int_abs of_int_le_iff of_int_numeral of_int_power)
  consider "z = 0" | "0 < z" | "z < 0" by linarith
  then show ?thesis
  proof cases
    case 1 then show ?thesis by (simp add: q round_double_def)
  next
    case 2 with z show ?thesis unfolding q by (intro round_double_pos_int) auto
  next
    case 3
    with z have "round_double (of_int (- z)) = Fin (of_int (- z))"
      by (intro round_double_pos_int) auto
    then have "js_negate (round_double (of_int z)) = Fin (- of_int z)"
      by (simp add: round_double_minus)
    then show ?thesis unfolding q by (cases "round_double (of_int z)") auto
  qed
qed


subsection \<open>Aggregation\<close>

lemma foldl_forEach_body:
  "foldl (forEach_body E) (i, e) ts =
     (foldl js_add i (income_amounts E ts), foldl js_add e (expense_amounts E ts))"
proof (induction ts arbitrary: i e)
  case Nil
  show ?case by (simp add: income_amounts_def expense_amounts_def)
next
  case (Cons t ts)
  have here: "income_amounts E (t # ts) =
                (if is_number (amount t) \<and> strict_eq (type_t t) (INCOME E)
                 then the_number (amount t) # income_amounts E ts else income_amounts E ts)"
             "expense_amounts E (t # ts) =
                (if is_number (amount t) \<and> \<not> strict_eq (type_t t) (INCOME E)
                 then the_number (amount t) # expense_amounts E ts else expense_amounts E ts)"
    by (simp_all add: income_amounts_def expense_amounts_def)
  show ?case
    by (simp add: here Cons.IH)
qed

lemma aggregate_totals:
  "aggregate E ts =
     \<lparr>totalIncome = js_sum (income_amounts E ts), totalExpenses = js_sum (expense_amounts E ts),
      balance = js_sub (js_sum (income_amounts E ts)) (js_sum (expense_amounts E ts))\<rparr>"
  by (simp add: aggregate_def js_sum_def foldl_forEach_body)

text \<open>
  C1. For every collection, \<open>totalIncome\<close> is the sum of the amounts of the transactions
  whose type is INCOME and whose amount is a number, \<open>totalExpenses\<close> the sum of the
  amounts of those whose type is not INCOME and whose amount is a number (a transaction
  whose amount is not a number is left out of both), and \<open>balance\<close> is their difference.
\<close>

theorem aggregate_sums:
  "totalIncome (aggregate E ts) = js_sum (income_amounts E ts)
   \<and> totalExpenses (aggregate E ts) = js_sum (expense_amounts E ts)
   \<and> balance (aggregate E ts) = js_sub (totalIncome (aggregate E ts)) (totalExpenses (aggregate E ts))"
  by (simp add: aggregate_def js_sum_def foldl_forEach_body)

subsection \<open>Deleting and adding\<close>

lemma deleteTransaction_append:
  "deleteTransaction i (xs @ ys) = deleteTransaction i xs @ deleteTransaction i ys"
  by (simp add: deleteTransaction_def)

lemma deleteTransaction_absent:
  "i \<notin> id_t ` set ts \<Longrightarrow> deleteTransaction i ts = ts"
  by (induction ts) (auto simp: deleteTransaction_def)

text \<open>
  C7. \<open>deleteTransaction i\<close> on a collection in which exactly one element has the id \<open>i\<close>
  removes that element and keeps the others in their order; on a collection in which no
  element has the id \<open>i\<close> it returns the collection unchanged. It is a total function: no
  error is raised.
\<close>

theorem deleteTransaction_unique:
  "(i \<notin> id_t ` set ts \<longrightarrow> deleteTransaction i ts = ts)
   \<and> (\<forall>xs x ys. ts = xs @ x # ys \<and> id_t x = i \<and> i \<notin> id_t ` set (xs @ ys)
         \<longrightarrow> deleteTransaction i ts = xs @ ys)"
proof (intro conjI impI allI)
  assume "i \<notin> id_t ` set ts"
  then show "deleteTransaction i ts = ts" by (rule deleteTransaction_absent)
next
  fix xs x ys
  assume h: "ts = xs @ x # ys \<and> id_t x = i \<and> i \<notin> id_t ` set (xs @ ys)"
  then have "i \<notin> id_t ` set xs" and "i \<notin> id_t ` set ys" by auto
  then have "deleteTransaction i xs = xs" and "deleteTransaction i ys = ys"
    by (simp_all add: deleteTransaction_absent)
  moreover have "deleteTransaction i [x] = []" using h by (simp add: deleteTransaction_def)
  ultimately show "deleteTransaction i ts = xs @ ys"
    using h deleteTransaction_append [of i xs "x # ys"] deleteTransaction_append [of i "[x]" ys]
    by simp
qed

theorem deleteTransaction_unique_witness:
  "deleteTransaction ''z'' [salary, groceries, rent] = [salary, groceries, rent]
   \<and> deleteTransaction ''b'' [salary, groceries, rent] = [salary, rent]"
proof -
  have a: "''z'' \<notin> id_t ` set [salary, groceries, rent]"
    by (simp add: salary_def groceries_def rent_def)
  have b: "[salary, groceries, rent] = [salary] @ groceries # [rent] \<and> id_t groceries = ''b''
           \<and> ''b'' \<notin> id_t ` set ([salary] @ [rent])"
    by (simp add: salary_def groceries_def rent_def)
  from deleteTransaction_unique [of "''z''" "[salary, groceries, rent]"] a
  have 1: "deleteTransaction ''z'' [salary, groceries, rent] = [salary, groceries, rent]"
    by blast
  from deleteTransaction_unique [of "''b''" "[salary, groceries, rent]"] b
  have "deleteTransaction ''b'' [salary, groceries, rent] = [salary] @ [rent]"
    by blast
  with 1 show ?thesis by simp
qed

text \<open>
  C10. \<open>deleteTransaction i\<close> removes every element whose id is \<open>i\<close>: none is left, the
  length drops by the number of elements with that id, and every other element stays, as
  often as before and in the same order.
\<close>

theorem deleteTransaction_all:
  "i \<notin> id_t ` set (deleteTransaction i ts)
   \<and> length (deleteTransaction i ts) + length (filter (\<lambda>t. id_t t = i) ts) = length ts
   \<and> (\<forall>t. id_t t \<noteq> i \<longrightarrow> count_list (deleteTransaction i ts) t = count_list ts t)
   \<and> subseq (deleteTransaction i ts) ts"
proof (intro conjI allI impI)
  show "i \<notin> id_t ` set (deleteTransaction i ts)" by (auto simp: deleteTransaction_def)
  show "length (deleteTransaction i ts) + length (filter (\<lambda>t. id_t t = i) ts) = length ts"
    unfolding deleteTransaction_def by (induction ts) auto
  show "subseq (deleteTransaction i ts) ts" by (simp add: deleteTransaction_def subseq_filter_left)
next
  fix t :: transaction
  assume "id_t t \<noteq> i"
  then show "count_list (deleteTransaction i ts) t = count_list ts t"
    unfolding deleteTransaction_def by (induction ts) auto
qed

theorem deleteTransaction_all_witness:
  "''a'' \<notin> id_t ` set (deleteTransaction ''a'' [salary, groceries, bonus])
   \<and> length (deleteTransaction ''a'' [salary, groceries, bonus]) = 1
   \<and> count_list (deleteTransaction ''a'' [salary, groceries, bonus]) groceries = 1"
proof -
  have two: "length (filter (\<lambda>t. id_t t = ''a'') [salary, groceries, bonus]) = 2"
    by (simp add: salary_def groceries_def bonus_def)
  have other: "id_t groceries \<noteq> ''a''"
    by (simp add: groceries_def)
  have once: "count_list [salary, groceries, bonus] groceries = 1"
    by (simp add: salary_def groceries_def bonus_def)
  from deleteTransaction_all [of "''a''" "[salary, groceries, bonus]"] two other once
  show ?thesis by auto
qed

text \<open>
  C8. Adding a transaction and then deleting the id it was given returns the collection as
  it was before, provided that id is not the id of an element already there.
\<close>

theorem add_then_delete:
  assumes "randomUUID P (uuids_drawn w) \<notin> id_t ` set ts"
  shows "\<exists>ts' w'. addTransaction P n ts w = (Inr ts', w')
           \<and> length ts' = Suc (length ts)
           \<and> id_t (last ts') = randomUUID P (uuids_drawn w)
           \<and> deleteTransaction (id_t (last ts')) ts' = ts"
proof -
  let ?u = "randomUUID P (uuids_drawn w)"
  let ?t = "\<lparr>description = description n, amount = amount n, type_t = type_t n, id_t = ?u,
             date = Date_now P (clock_reads w)\<rparr>"
  let ?w' = "w\<lparr>uuids_drawn := Suc (uuids_drawn w), clock_reads := Suc (clock_reads w)\<rparr>"
  have run: "addTransaction P n ts w = (Inr (ts @ [?t]), ?w')"
    by (simp add: addTransaction_def js_bind_def js_return_def crypto_randomUUID_def
        new_Date_now_def)
  have "deleteTransaction ?u (ts @ [?t]) = ts"
    using assms deleteTransaction_absent [of ?u ts]
    by (simp add: deleteTransaction_append) (simp add: deleteTransaction_def)
  with run show ?thesis by simp
qed

theorem add_then_delete_witness:
  "randomUUID example_platform (uuids_drawn start) \<notin> id_t ` set [salary, groceries]
   \<and> (\<exists>ts' w'. addTransaction example_platform
                   \<lparr>description = ''Rent'', amount = JNum (Fin 700), type_t = JStr ''EXPENSE''\<rparr>
                   [salary, groceries] start = (Inr ts', w')
          \<and> length ts' = 3
          \<and> id_t (last ts') = ''uuid-0''
          \<and> deleteTransaction (id_t (last ts')) ts' = [salary, groceries])"
proof -
  have u: "randomUUID example_platform (uuids_drawn start) = ''uuid-0''"
    by code_simp
  have fresh: "randomUUID example_platform (uuids_drawn start) \<notin> id_t ` set [salary, groceries]"
    by (simp add: u salary_def groceries_def)
  from add_then_delete [OF fresh,
      of "\<lparr>description = ''Rent'', amount = JNum (Fin 700), type_t = JStr ''EXPENSE''\<rparr>"]
  have "\<exists>ts' w'. addTransaction example_platform
                   \<lparr>description = ''Rent'', amount = JNum (Fin 700), type_t = JStr ''EXPENSE''\<rparr>
                   [salary, groceries] start = (Inr ts', w')
          \<and> length ts' = 3
          \<and> id_t (last ts') = ''uuid-0''
          \<and> deleteTransaction (id_t (last ts')) ts' = [salary, groceries]"
    by (simp add: u eval_nat_numeral)
  with fresh show ?thesis by blast
qed

subsection \<open>The initializer\<close>

text \<open>
  A conversion to a string, to a number or to a date returns exactly on the values that
  \<open>converts\<close> describes, and throws a \<^verbatim>\<open>TypeError\<close> on the others.
\<close>

lemma collect_Inr_iff:
  "(\<exists>as. collect rs = Inr as) \<longleftrightarrow> (\<forall>r \<in> set rs. \<exists>a. r = Inr a)"
  by (induction rs) (auto split: sum.splits)

lemma to_string_converts: "(\<exists>s. to_string nts v = Inr s) \<longleftrightarrow> converts v"
proof (induction nts v rule: to_string.induct)
  case (6 nts xs)
  let ?f = "\<lambda>x. if x = JUndefined \<or> x = JNull then Inr [] else to_string nts x"
  have "(\<exists>s. to_string nts (JArr xs) = Inr s) \<longleftrightarrow> (\<exists>ss. collect (map ?f xs) = Inr ss)"
    by (auto split: sum.splits)
  also have "\<dots> \<longleftrightarrow> (\<forall>x \<in> set xs. \<exists>a. ?f x = Inr a)"
    by (auto simp: collect_Inr_iff)
  also have "\<dots> \<longleftrightarrow> (\<forall>x \<in> set xs. converts x)"
    using 6 by (intro ball_cong refl) auto
  finally show ?case by (simp add: list_all_iff)
qed auto

lemma collect_Inl: "collect rs = Inl e \<Longrightarrow> Inl e \<in> set rs"
  by (induction rs) (auto split: sum.splits)

lemma to_string_TypeError: "to_string nts v = Inl e \<Longrightarrow> e = TypeError"
proof (induction nts v rule: to_string.induct)
  case (6 nts xs)
  let ?f = "\<lambda>x. if x = JUndefined \<or> x = JNull then Inr [] else to_string nts x"
  from "6.prems" have "collect (map ?f xs) = Inl e" by (auto split: sum.splits)
  then have "Inl e \<in> set (map ?f xs)" by (rule collect_Inl)
  then obtain x where "x \<in> set xs" "?f x = Inl e" by auto
  then show ?case using "6.IH" [of x] by (auto split: if_splits)
qed (auto split: if_splits)

lemma to_string_throws: "\<not> converts v \<Longrightarrow> to_string nts v = Inl TypeError"
proof -
  assume "\<not> converts v"
  then have "\<nexists>s. to_string nts v = Inr s" by (simp add: to_string_converts)
  then obtain e where "to_string nts v = Inl e" by (cases "to_string nts v") auto
  then show ?thesis using to_string_TypeError by blast
qed

lemma to_number_converts: "(\<exists>n. to_number nts v = Inr n) \<longleftrightarrow> converts v"
proof (cases v)
  case (JArr xs)
  then show ?thesis using to_string_converts [of nts v] by (auto split: sum.splits)
next
  case (JObj kvs)
  then show ?thesis by auto
qed auto

lemma to_number_throws: "\<not> converts v \<Longrightarrow> to_number nts v = Inl TypeError"
  using to_string_throws [of v nts] by (cases v) auto

lemma new_Date_converts: "(\<exists>r. new_Date P v = Inr r) \<longleftrightarrow> converts v"
proof (cases v)
  case (JArr xs)
  then show ?thesis using to_string_converts [of "Number_toString P" v] by (auto split: sum.splits)
next
  case (JObj kvs)
  then show ?thesis by auto
qed auto

lemma new_Date_throws: "\<not> converts v \<Longrightarrow> new_Date P v = Inl TypeError"
  using to_string_throws [of v "Number_toString P"] by (cases v) auto

lemma to_number_Inl: "to_number nts v = Inl e \<Longrightarrow> e = TypeError"
  by (cases v) (auto split: sum.splits dest: to_string_TypeError simp del: to_string.simps)

lemma new_Date_Inl: "new_Date P v = Inl e \<Longrightarrow> e = TypeError"
  by (cases v)
     (auto split: sum.splits dest: to_string_TypeError to_number_Inl
       simp del: to_string.simps to_number.simps)

lemma falsy_converts: "\<not> truthy v \<Longrightarrow> converts v"
  by (cases v) auto

lemma or_else_converts: "converts b \<Longrightarrow> converts (or_else a b) \<longleftrightarrow> converts a"
  by (auto simp: or_else_def falsy_converts)


lemma js_bind_return [simp]: "js_bind (js_return a) f w = f a w"
  by (simp add: js_bind_def js_return_def)

lemma js_bind_of_Inr [simp]: "js_bind (js_of (Inr a)) f w = f a w"
  by (simp add: js_bind_def js_of_def)

lemma js_bind_of_Inl [simp]: "js_bind (js_of (Inl e)) f w = (Inl e, w)"
  by (simp add: js_bind_def js_of_def)

lemma js_bind_get [simp]:
  "t \<noteq> JNull \<Longrightarrow> t \<noteq> JUndefined \<Longrightarrow> js_bind (get t k) f w = f (property_of t k) w"
  by (simp add: js_bind_def get_def)

lemma js_bind_warn [simp]:
  "js_bind (warn msg) f w = f () (w\<lparr>console := console w @ [console_warn msg]\<rparr>)"
  by (simp add: js_bind_def warn_def)

lemma falsy_property: "\<not> truthy t \<Longrightarrow> property_of t k = JUndefined"
  by (cases t) auto

lemma js_bind_parsedDate:
  "parsedDate P t w = (Inr parsed, w1) \<Longrightarrow> js_bind (parsedDate P t) f w = f parsed w1"
  by (simp add: js_bind_def)

lemma map_callback_nullish:
  "t = JNull \<or> t = JUndefined \<Longrightarrow> map_callback P E t w = (Inl TypeError, w)"
  by (auto simp: map_callback_def parsedDate_def missing_date_def get_def js_bind_def)

text \<open>
  What the callback of lines 18-44 does on an element that is neither \<^verbatim>\<open>null\<close> nor
  \<^verbatim>\<open>undefined\<close>: first the date, then the other fields. It returns a record exactly on the
  elements that are \<open>repairable\<close>, and the only exception it throws is a \<^verbatim>\<open>TypeError\<close>.
\<close>

lemma parsedDate_defined:
  assumes "t \<noteq> JNull" and "t \<noteq> JUndefined"
  shows "parsedDate P t w =
     (let now = Date_now P (clock_reads w);
          tid = to_string (Number_toString P) (property_of t ''id'');
          tdate = property_of t ''date''
      in if truthy tdate then
           (case new_Date P tdate of
              Inl e \<Rightarrow> (Inl e, w)
            | Inr (Some ms) \<Rightarrow> (Inr ms, w)
            | Inr None \<Rightarrow>
                (case tid of
                   Inl e \<Rightarrow> (Inl e, w)
                 | Inr i \<Rightarrow>
                     (case to_string (Number_toString P) tdate of
                        Inl e \<Rightarrow> (Inl e, w)
                      | Inr d \<Rightarrow> (Inr now, fallback_world (invalid_date_message i d) w))))
         else
           (case tid of
              Inl e \<Rightarrow> (Inl e, w)
            | Inr i \<Rightarrow> (Inr now, fallback_world (missing_date_message i) w)))"
proof -
  let ?nts = "Number_toString P"
  have missing: "missing_date P t w =
      (case to_string ?nts (property_of t ''id'') of
         Inl e \<Rightarrow> (Inl e, w)
       | Inr i \<Rightarrow> (Inr (Date_now P (clock_reads w)), fallback_world (missing_date_message i) w))"
    using assms
    by (cases "to_string ?nts (property_of t ''id'')")
       (simp_all add: missing_date_def new_Date_now_def fallback_world_def)
  show ?thesis
  proof (cases "truthy (property_of t ''date'')")
    case False
    then show ?thesis
      using assms by (cases "truthy t") (simp_all add: parsedDate_def missing Let_def)
  next
    case True
    have "truthy t"
    proof (rule ccontr)
      assume "\<not> truthy t"
      then have "property_of t ''date'' = JUndefined" by (rule falsy_property)
      with True show False by simp
    qed
    with True show ?thesis
      using assms
      by (cases "new_Date P (property_of t ''date'')";
          cases "to_string ?nts (property_of t ''id'')";
          cases "to_string ?nts (property_of t ''date'')")
         (simp_all add: parsedDate_def Let_def js_return_def new_Date_now_def fallback_world_def
           split: option.split)
  qed
qed

lemma map_callback_after_date:
  assumes "t \<noteq> JNull" and "t \<noteq> JUndefined"
    and "parsedDate P t w = (Inr parsed, w1)"
  shows "map_callback P E t w =
     (let w2 = (if truthy (property_of t ''id'') then w1
                else w1\<lparr>uuids_drawn := Suc (uuids_drawn w1)\<rparr>)
      in case to_string (Number_toString P)
                (or_else (property_of t ''id'') (JStr (randomUUID P (uuids_drawn w1)))) of
           Inl e \<Rightarrow> (Inl e, w2)
         | Inr i \<Rightarrow>
             (case to_string (Number_toString P)
                     (or_else (property_of t ''description'') (JStr ''N/A'')) of
                Inl e \<Rightarrow> (Inl e, w2)
              | Inr d \<Rightarrow>
                  (case to_number (Number_toString P)
                          (or_else (property_of t ''amount'') (JNum (Fin 0))) of
                     Inl e \<Rightarrow> (Inl e, w2)
                   | Inr n \<Rightarrow>
                       (Inr \<lparr>description = d, amount = JNum n,
                              type_t = (if Array_includes (Object_values E) (property_of t ''type'')
                                        then property_of t ''type'' else EXPENSE E),
                              id_t = i, date = parsed\<rparr>, w2))))"
proof -
  let ?nts = "Number_toString P"
  let ?rest = "\<lambda>id.
     js_bind (get t ''description'') (\<lambda>tdescription.
     js_bind (js_of (to_string ?nts (or_else tdescription (JStr ''N/A'')))) (\<lambda>description.
     js_bind (get t ''amount'') (\<lambda>tamount.
     js_bind (js_of (to_number ?nts (or_else tamount (JNum (Fin 0))))) (\<lambda>amount.
     js_bind (get t ''type'') (\<lambda>ttype.
     js_return
       \<lparr>description = description,
        amount = JNum amount,
        type_t = (if Array_includes (Object_values E) ttype then ttype else EXPENSE E),
        id_t = id,
        date = parsed\<rparr>)))))"
  have rest: "?rest i w2 =
     (case to_string ?nts (or_else (property_of t ''description'') (JStr ''N/A'')) of
        Inl e \<Rightarrow> (Inl e, w2)
      | Inr d \<Rightarrow>
          (case to_number ?nts (or_else (property_of t ''amount'') (JNum (Fin 0))) of
             Inl e \<Rightarrow> (Inl e, w2)
           | Inr n \<Rightarrow>
               (Inr \<lparr>description = d, amount = JNum n,
                      type_t = (if Array_includes (Object_values E) (property_of t ''type'')
                                then property_of t ''type'' else EXPENSE E),
                      id_t = i, date = parsed\<rparr>, w2)))" for i w2
    using assms(1,2)
    by (cases "to_string ?nts (or_else (property_of t ''description'') (JStr ''N/A''))";
        cases "to_number ?nts (or_else (property_of t ''amount'') (JNum (Fin 0)))")
       (simp_all add: js_return_def)
  have start: "map_callback P E t w =
     js_bind (if truthy (property_of t ''id'') then js_return (property_of t ''id'')
              else js_bind (crypto_randomUUID P) (\<lambda>u. js_return (JStr u)))
       (\<lambda>id_or_fresh. js_bind (js_of (to_string ?nts id_or_fresh)) ?rest) w1"
    using assms(1,2) by (simp add: map_callback_def js_bind_parsedDate [OF assms(3)])
  show ?thesis
  proof (cases "truthy (property_of t ''id'')")
    case True
    then have o: "or_else (property_of t ''id'') (JStr (randomUUID P (uuids_drawn w1))) = property_of t ''id''"
      by (simp add: or_else_def)
    from True show ?thesis
      unfolding start o
      by (cases "to_string ?nts (property_of t ''id'')") (simp_all add: rest Let_def)
  next
    case False
    then have o: "or_else (property_of t ''id'') (JStr (randomUUID P (uuids_drawn w1)))
                    = JStr (randomUUID P (uuids_drawn w1))"
      by (simp add: or_else_def)
    have draw: "js_bind (js_bind (crypto_randomUUID P) (\<lambda>u. js_return (JStr u))) f w1 =
                  f (JStr (randomUUID P (uuids_drawn w1)))
                    (w1\<lparr>uuids_drawn := Suc (uuids_drawn w1)\<rparr>)"
      for f :: "jsval \<Rightarrow> transaction js"
      by (simp add: js_bind_def crypto_randomUUID_def js_return_def)
    from False show ?thesis
      unfolding start o by (simp add: draw rest Let_def)
  qed
qed

lemma parsedDate_returns_iff:
  assumes "t \<noteq> JNull" and "t \<noteq> JUndefined" and "converts (property_of t ''id'')"
  shows "(\<exists>parsed w1. parsedDate P t w = (Inr parsed, w1)) \<longleftrightarrow> converts (property_of t ''date'')"
proof -
  let ?nts = "Number_toString P"
  from assms(3) obtain i where i: "to_string ?nts (property_of t ''id'') = Inr i"
    using to_string_converts by blast
  show ?thesis
  proof (cases "converts (property_of t ''date'')")
    case True
    then obtain d r where "to_string ?nts (property_of t ''date'') = Inr d"
      and "new_Date P (property_of t ''date'') = Inr r"
      using to_string_converts new_Date_converts by blast
    with True i show ?thesis
      by (cases r) (simp_all add: parsedDate_defined [OF assms(1,2)] Let_def)
  next
    case False
    then have "truthy (property_of t ''date'')" using falsy_converts by blast
    with False show ?thesis
      by (simp add: parsedDate_defined [OF assms(1,2)] Let_def new_Date_throws)
  qed
qed

lemma map_callback_returns_iff:
  "(\<exists>tx w'. map_callback P E t w = (Inr tx, w')) \<longleftrightarrow> repairable t"
proof (cases "t = JNull \<or> t = JUndefined")
  case True
  then show ?thesis using map_callback_nullish [OF True, of P E w] by (auto simp: repairable_def)
next
  case False
  then have t: "t \<noteq> JNull" "t \<noteq> JUndefined" by auto
  let ?nts = "Number_toString P"
  show ?thesis
  proof (cases "\<exists>parsed w1. parsedDate P t w = (Inr parsed, w1)")
    case True
    then obtain parsed w1 where pd: "parsedDate P t w = (Inr parsed, w1)" by blast
    let ?id = "or_else (property_of t ''id'') (JStr (randomUUID P (uuids_drawn w1)))"
    let ?de = "or_else (property_of t ''description'') (JStr ''N/A'')"
    let ?am = "or_else (property_of t ''amount'') (JNum (Fin 0))"
    have run: "(\<exists>tx w'. map_callback P E t w = (Inr tx, w')) \<longleftrightarrow>
               (\<exists>i. to_string ?nts ?id = Inr i) \<and> (\<exists>d. to_string ?nts ?de = Inr d)
               \<and> (\<exists>n. to_number ?nts ?am = Inr n)"
      unfolding map_callback_after_date [OF t pd] Let_def
      by (cases "to_string ?nts ?id"; cases "to_string ?nts ?de"; cases "to_number ?nts ?am")
         simp_all
    have conv: "(\<exists>i. to_string ?nts ?id = Inr i) \<longleftrightarrow> converts (property_of t ''id'')"
      "(\<exists>d. to_string ?nts ?de = Inr d) \<longleftrightarrow> converts (property_of t ''description'')"
      "(\<exists>n. to_number ?nts ?am = Inr n) \<longleftrightarrow> converts (property_of t ''amount'')"
      by (simp_all add: to_string_converts to_number_converts or_else_converts)
    show ?thesis
    proof (cases "converts (property_of t ''id'')")
      case id: True
      from parsedDate_returns_iff [OF t id, of P w] True
      have "converts (property_of t ''date'')" by blast
      with t show ?thesis unfolding run conv by (simp add: repairable_def)
    next
      case False
      then show ?thesis unfolding run conv by (simp add: repairable_def)
    qed
  next
    case False
    then obtain e w1 where pd: "parsedDate P t w = (Inl e, w1)"
      by (cases "parsedDate P t w"; cases "fst (parsedDate P t w)") auto
    then have no: "\<not> (\<exists>tx w'. map_callback P E t w = (Inr tx, w'))"
      by (simp add: map_callback_def js_bind_def)
    have "\<not> repairable t"
    proof
      assume r: "repairable t"
      then have "converts (property_of t ''id'')" "converts (property_of t ''date'')"
        by (simp_all add: repairable_def)
      with parsedDate_returns_iff [OF t, of P w] False show False by blast
    qed
    with no show ?thesis by simp
  qed
qed

lemma map_callback_TypeError: "map_callback P E t w = (Inl e, w') \<Longrightarrow> e = TypeError"
proof (cases "t = JNull \<or> t = JUndefined")
  case True
  assume "map_callback P E t w = (Inl e, w')"
  with map_callback_nullish [OF True, of P E w] show ?thesis by simp
next
  case False
  then have t: "t \<noteq> JNull" "t \<noteq> JUndefined" by auto
  let ?nts = "Number_toString P"
  assume run: "map_callback P E t w = (Inl e, w')"
  show ?thesis
  proof (cases "parsedDate P t w")
    case (Pair r w1)
    show ?thesis
    proof (cases r)
      case (Inl e')
      with Pair run have "e' = e" by (simp add: map_callback_def js_bind_def)
      moreover from Pair Inl have "e' = TypeError"
        unfolding parsedDate_defined [OF t] Let_def
        by (auto split: if_splits sum.splits option.splits
            dest: to_string_TypeError simp: new_Date_throws dest!: new_Date_Inl)
      ultimately show ?thesis by simp
    next
      case (Inr parsed)
      with Pair have pd: "parsedDate P t w = (Inr parsed, w1)" by simp
      from run show ?thesis
        unfolding map_callback_after_date [OF t pd] Let_def
        by (auto split: sum.splits dest: to_string_TypeError to_number_Inl)
    qed
  qed
qed

lemma map_callback_Inr_D:
  assumes "map_callback P E t w = (Inr tx, w')"
  shows "\<exists>parsed w1 n.
           parsedDate P t w = (Inr parsed, w1)
           \<and> w' = (if truthy (property_of t ''id'') then w1
                   else w1\<lparr>uuids_drawn := Suc (uuids_drawn w1)\<rparr>)
           \<and> to_string (Number_toString P)
                (or_else (property_of t ''id'') (JStr (randomUUID P (uuids_drawn w1)))) = Inr (id_t tx)
           \<and> to_string (Number_toString P)
                (or_else (property_of t ''description'') (JStr ''N/A'')) = Inr (description tx)
           \<and> to_number (Number_toString P)
                (or_else (property_of t ''amount'') (JNum (Fin 0))) = Inr n
           \<and> amount tx = JNum n
           \<and> type_t tx = (if Array_includes (Object_values E) (property_of t ''type'')
                          then property_of t ''type'' else EXPENSE E)
           \<and> date tx = parsed"
proof -
  from assms have t: "t \<noteq> JNull" "t \<noteq> JUndefined"
    using map_callback_nullish [of t P E w] by auto
  obtain r w1 where "parsedDate P t w = (r, w1)" by (cases "parsedDate P t w")
  with assms obtain parsed where pd: "parsedDate P t w = (Inr parsed, w1)"
    by (cases r) (auto simp: map_callback_def js_bind_def)
  from assms show ?thesis
    unfolding map_callback_after_date [OF t pd] Let_def
    by (auto simp: pd split: sum.splits)
qed

lemma same_value_zero_eq: "same_value_zero a b \<Longrightarrow> a = b"
  by (induction a b rule: same_value_zero.induct) auto

lemma Array_includes_member: "Array_includes xs v \<Longrightarrow> v \<in> set xs"
  by (auto simp: Array_includes_def list_ex_iff dest: same_value_zero_eq)

text \<open>
  C4. Provided the values of the enum are its two members: whenever the callback returns a
  record for an element of the stored array, the type of the record is INCOME or EXPENSE;
  it is the stored type when \<^verbatim>\<open>includes\<close> finds that among the values of the enum, and
  EXPENSE whenever the stored type is not a value of the enum, in particular for the
  stored type \<^verbatim>\<open>"income"\<close> when that string is not a value of the enum. The callback
  returns a record exactly for the repairable elements: those that are not \<^verbatim>\<open>null\<close> and
  whose id, description, amount and date convert.
\<close>

theorem normalized_type:
  assumes "set (Object_values E) = {INCOME E, EXPENSE E}"
  shows "((\<exists>tx w'. map_callback P E t w = (Inr tx, w')) \<longleftrightarrow> repairable t)
         \<and> (\<forall>tx w'. map_callback P E t w = (Inr tx, w') \<longrightarrow>
               (type_t tx = INCOME E \<or> type_t tx = EXPENSE E)
               \<and> (Array_includes (Object_values E) (property_of t ''type'')
                    \<longrightarrow> type_t tx = property_of t ''type'')
               \<and> (property_of t ''type'' \<notin> set (Object_values E) \<longrightarrow> type_t tx = EXPENSE E)
               \<and> (property_of t ''type'' = JStr ''income'' \<and> JStr ''income'' \<notin> set (Object_values E)
                    \<longrightarrow> type_t tx = EXPENSE E))"
proof (intro conjI allI impI)
  show "(\<exists>tx w'. map_callback P E t w = (Inr tx, w')) \<longleftrightarrow> repairable t"
    by (rule map_callback_returns_iff)
next
  fix tx w'
  assume run: "map_callback P E t w = (Inr tx, w')"
  let ?ty = "property_of t ''type''"
  from map_callback_Inr_D [OF run]
  have ty: "type_t tx = (if Array_includes (Object_values E) ?ty then ?ty else EXPENSE E)"
    by blast
  show "type_t tx = INCOME E \<or> type_t tx = EXPENSE E"
  proof (cases "Array_includes (Object_values E) ?ty")
    case True
    then have "?ty \<in> {INCOME E, EXPENSE E}" using Array_includes_member assms by blast
    with True ty show ?thesis by auto
  next
    case False
    with ty show ?thesis by simp
  qed
  show "type_t tx = ?ty" if "Array_includes (Object_values E) ?ty"
    using that ty by simp
  have dflt: "type_t tx = EXPENSE E" if "?ty \<notin> set (Object_values E)"
    using that ty Array_includes_member by auto
  show "type_t tx = EXPENSE E" if "?ty \<notin> set (Object_values E)"
    using that by (rule dflt)
  show "type_t tx = EXPENSE E" if "?ty = JStr ''income'' \<and> JStr ''income'' \<notin> set (Object_values E)"
    using that dflt by simp
qed

theorem normalized_type_witness:
  "set (Object_values example_enum) = {INCOME example_enum, EXPENSE example_enum}
   \<and> repairable (JObj [(''id'', JStr ''a''), (''amount'', JStr ''50''), (''type'', JStr ''income'')])
   \<and> (\<exists>tx w'. map_callback example_platform example_enum
                  (JObj [(''id'', JStr ''a''), (''amount'', JStr ''50''), (''type'', JStr ''income'')]) start
                = (Inr tx, w')
              \<and> type_t tx = JStr ''EXPENSE'')"
proof -
  let ?t = "JObj [(''id'', JStr ''a''), (''amount'', JStr ''50''), (''type'', JStr ''income'')]"
  have h: "set (Object_values example_enum) = {INCOME example_enum, EXPENSE example_enum}"
    by (simp add: example_enum_def)
  have r: "repairable ?t" by (simp add: repairable_def)
  have ty: "property_of ?t ''type'' = JStr ''income''
            \<and> JStr ''income'' \<notin> set (Object_values example_enum)"
    by (simp add: example_enum_def)
  have ex: "EXPENSE example_enum = JStr ''EXPENSE''" by (simp add: example_enum_def)
  from normalized_type [OF h, of example_platform ?t start] r ty ex
  have "\<exists>tx w'. map_callback example_platform example_enum ?t start = (Inr tx, w')
           \<and> type_t tx = JStr ''EXPENSE''"
    by metis
  with h r show ?thesis by blast
qed

text \<open>
  C5. When the payload does not decode, or decodes to a value that is not an array, the
  initializer returns the empty collection, and returns it normally: the exception of
  \<^verbatim>\<open>JSON.parse\<close> is caught.
\<close>

theorem undecodable_payload:
  assumes "(\<exists>e. JSON_parse P s = Inl e) \<or> (\<exists>v. JSON_parse P s = Inr v \<and> \<not> Array_isArray v)"
  shows "fst (initial_transactions P E (Some s) w) = Inr []"
proof (cases "s = []")
  case True
  then show ?thesis by (simp add: initial_transactions_def js_return_def)
next
  case False
  from assms show ?thesis
  proof
    assume "\<exists>e. JSON_parse P s = Inl e"
    then obtain e where "JSON_parse P s = Inl e" ..
    then have "\<exists>w'. try_block P E s w = (Inl e, w')"
      by (simp add: try_block_def js_bind_def)
    with False show ?thesis
      by (auto simp: initial_transactions_def js_try_catch_def js_bind_def log_error_def js_return_def)
  next
    assume "\<exists>v. JSON_parse P s = Inr v \<and> \<not> Array_isArray v"
    then obtain v where v: "JSON_parse P s = Inr v" "\<not> Array_isArray v" by blast
    then have "\<exists>w'. try_block P E s w = (Inr [], w')"
      by (cases v) (simp_all add: try_block_def js_bind_def warn_def js_return_def)
    with False show ?thesis
      by (auto simp: initial_transactions_def js_try_catch_def)
  qed
qed

theorem undecodable_payload_witness:
  \<open>JSON_parse example_platform ''not-json'' = Inl SyntaxError
   \<and> fst (initial_transactions example_platform example_enum (Some ''not-json'') start) = Inr []
   \<and> JSON_parse example_platform ''{"id":"a"}'' = Inr (JObj [(''id'', JStr ''a'')])
   \<and> fst (initial_transactions example_platform example_enum (Some ''{"id":"a"}'') start) = Inr []\<close>
proof -
  have a: \<open>JSON_parse example_platform ''not-json'' = Inl SyntaxError\<close>
    by (simp add: example_platform_def example_JSON_parse_def)
  have b: \<open>JSON_parse example_platform ''{"id":"a"}'' = Inr (JObj [(''id'', JStr ''a'')])\<close>
    by (simp add: example_platform_def example_JSON_parse_def)
  have c: \<open>\<not> Array_isArray (JObj [(''id'', JStr ''a'')])\<close> by simp
  from a have 1: "fst (initial_transactions example_platform example_enum (Some ''not-json'') start) = Inr []"
    by (intro undecodable_payload) blast
  from b c have 2: \<open>fst (initial_transactions example_platform example_enum (Some ''{"id":"a"}'') start) = Inr []\<close>
    by (intro undecodable_payload) blast
  from a b 1 2 show ?thesis by blast
qed


text \<open>
  Two runs on the platform of the examples. The stored array
  \<^verbatim>\<open>[{"id":"a","amount":"50","type":"income"}]\<close> gives one record, with the amount 50 and
  the type EXPENSE, and a warning for the date it lacks. A record with the date
  \<^verbatim>\<open>"not-a-date"\<close> gets the reading of the clock and the other warning.
\<close>

lemma initial_transactions_example:
  \<open>initial_transactions example_platform example_enum
       (Some ''[{"id":"a","amount":"50","type":"income"}]'') start =
     (Inr [\<lparr>description = ''N/A'', amount = JNum (Fin 50), type_t = JStr ''EXPENSE'',
             id_t = ''a'', date = 1762150000000\<rparr>],
      \<lparr>console = [console_warn (missing_date_message ''a'')], clock_reads = 1, uuids_drawn = 0\<rparr>)\<close>
  by code_simp

lemma map_callback_example:
  "map_callback example_platform example_enum
       (JObj [(''id'', JStr ''a''), (''date'', JStr ''not-a-date'')]) start =
     (Inr \<lparr>description = ''N/A'', amount = JNum (Fin 0), type_t = JStr ''EXPENSE'',
            id_t = ''a'', date = 1762150000000\<rparr>,
      \<lparr>console = [console_warn (invalid_date_message ''a'' ''not-a-date'')], clock_reads = 1,
         uuids_drawn = 0\<rparr>)"
  by code_simp




text \<open>
  The amount of a record that the callback returns is the number
  \<^verbatim>\<open>Number(t.amount || 0)\<close>: 0 for an amount that is missing or falsy, 50 for the string
  \<^verbatim>\<open>"50"\<close>.
\<close>

lemma string_to_number_abc: "string_to_number ''abc'' = NaN"
  by code_simp

lemma string_to_number_50: "string_to_number ''50'' = Fin 50"
  by code_simp

lemma normalized_amount:
  assumes "map_callback P E t w = (Inr tx, w')"
  shows "\<exists>n. to_number (Number_toString P) (or_else (property_of t ''amount'') (JNum (Fin 0))) = Inr n
           \<and> amount tx = JNum n"
  using map_callback_Inr_D [OF assms] by blast

lemma normalized_amount_falsy:
  assumes "map_callback P E t w = (Inr tx, w')" and "\<not> truthy (property_of t ''amount'')"
  shows "amount tx = JNum (Fin 0)"
  using normalized_amount [OF assms(1)] assms(2) by (auto simp: or_else_def)

lemma normalized_amount_50:
  "\<exists>tx w'. map_callback P E (JObj [(''id'', JStr ''a''), (''amount'', JStr ''50'')]) w = (Inr tx, w')
     \<and> amount tx = JNum (Fin 50)"
proof -
  let ?t = "JObj [(''id'', JStr ''a''), (''amount'', JStr ''50'')]"
  have "repairable ?t" by (simp add: repairable_def)
  then obtain tx w' where run: "map_callback P E ?t w = (Inr tx, w')"
    using map_callback_returns_iff by blast
  from normalized_amount [OF run] have "amount tx = JNum (Fin 50)"
    by (simp add: or_else_def string_to_number_50)
  with run show ?thesis by blast
qed

text \<open>
  C2. The amount is not 0 for every stored amount that is not numeric: a string that is
  not a numeric literal is truthy, so \<^verbatim>\<open>|| 0\<close> keeps it, and \<^verbatim>\<open>Number\<close> makes it
  \<^verbatim>\<open>NaN\<close>. The record with the amount \<^verbatim>\<open>"abc"\<close> is normalized to the amount \<^verbatim>\<open>NaN\<close>.
\<close>

theorem amount_not_a_number:
  "\<exists>tx w'. map_callback P E (JObj [(''id'', JStr ''a''), (''amount'', JStr ''abc'')]) w = (Inr tx, w')
     \<and> amount tx = JNum NaN"
proof -
  let ?t = "JObj [(''id'', JStr ''a''), (''amount'', JStr ''abc'')]"
  have "repairable ?t" by (simp add: repairable_def)
  then obtain tx w' where run: "map_callback P E ?t w = (Inr tx, w')"
    using map_callback_returns_iff by blast
  from normalized_amount [OF run] have "amount tx = JNum NaN"
    by (simp add: or_else_def string_to_number_abc)
  with run show ?thesis by blast
qed

text \<open>
  An array of repairable elements gives one record for each element, in the order of the
  array. An element that is not repairable, \<^verbatim>\<open>null\<close> for one, makes the callback throw, and
  the \<^verbatim>\<open>catch\<close> of line 49 returns the empty collection for the whole array.
\<close>

lemma map_js_repairable:
  "list_all repairable xs \<Longrightarrow>
     \<exists>ts w'. map_js (map_callback P E) xs w = (Inr ts, w')
       \<and> list_all2 (\<lambda>x tx. \<exists>w1 w2. map_callback P E x w1 = (Inr tx, w2)) xs ts"
proof (induction xs arbitrary: w)
  case Nil
  then show ?case by (simp add: js_return_def)
next
  case (Cons x xs)
  then have "repairable x" by simp
  then obtain tx w2 where one: "map_callback P E x w = (Inr tx, w2)"
    using map_callback_returns_iff by blast
  from Cons.IH [of w2] Cons.prems obtain ts w' where
    rest: "map_js (map_callback P E) xs w2 = (Inr ts, w')"
      "list_all2 (\<lambda>x tx. \<exists>w1 w2. map_callback P E x w1 = (Inr tx, w2)) xs ts" by auto
  have "map_js (map_callback P E) (x # xs) w = (Inr (tx # ts), w')"
    using one rest(1) by (simp add: js_bind_def js_return_def)
  moreover have "list_all2 (\<lambda>x tx. \<exists>w1 w2. map_callback P E x w1 = (Inr tx, w2)) (x # xs) (tx # ts)"
    using one rest(2) by auto
  ultimately show ?case by blast
qed

lemma map_js_throws:
  "\<not> list_all repairable xs \<Longrightarrow> \<exists>w'. map_js (map_callback P E) xs w = (Inl TypeError, w')"
proof (induction xs arbitrary: w)
  case Nil
  then show ?case by simp
next
  case (Cons x xs)
  obtain r w1 where run: "map_callback P E x w = (r, w1)" by (cases "map_callback P E x w")
  show ?case
  proof (cases r)
    case (Inl e)
    with run have "e = TypeError" using map_callback_TypeError by blast
    with run Inl show ?thesis by (simp add: js_bind_def)
  next
    case (Inr tx)
    with run have "repairable x" using map_callback_returns_iff by blast
    with Cons.prems have "\<not> list_all repairable xs" by simp
    from Cons.IH [OF this, of w1] obtain w' where
      "map_js (map_callback P E) xs w1 = (Inl TypeError, w')" by blast
    with run Inr show ?thesis by (simp add: js_bind_def)
  qed
qed

lemma initial_transactions_throws:
  assumes "JSON_parse P s = Inr (JArr xs)" and "\<not> list_all repairable xs"
  shows "fst (initial_transactions P E (Some s) w) = Inr []"
proof (cases "s = []")
  case True
  then show ?thesis by (simp add: initial_transactions_def js_return_def)
next
  case False
  from map_js_throws [OF assms(2), of P E w] obtain w' where
    "map_js (map_callback P E) xs w = (Inl TypeError, w')" by blast
  then have "try_block P E s w = (Inl TypeError, w')"
    using assms(1) by (simp add: try_block_def js_bind_def)
  with False show ?thesis
    by (simp add: initial_transactions_def js_try_catch_def js_bind_def log_error_def js_return_def)
qed

lemma initial_transactions_repairable:
  assumes "JSON_parse P s = Inr (JArr xs)" and "list_all repairable xs" and "s \<noteq> []"
  shows "\<exists>ts. fst (initial_transactions P E (Some s) w) = Inr ts
           \<and> list_all2 (\<lambda>x tx. \<exists>w1 w2. map_callback P E x w1 = (Inr tx, w2)) xs ts"
proof -
  from map_js_repairable [OF assms(2), of P E w] obtain ts w' where
    run: "map_js (map_callback P E) xs w = (Inr ts, w')"
    and all: "list_all2 (\<lambda>x tx. \<exists>w1 w2. map_callback P E x w1 = (Inr tx, w2)) xs ts" by blast
  from run have "try_block P E s w = (Inr ts, w')"
    using assms(1) by (simp add: try_block_def js_bind_def)
  with assms(3) all show ?thesis
    by (auto simp: initial_transactions_def js_try_catch_def)
qed

text \<open>
  C3. Not every element gives a record: for the payload
  \<^verbatim>\<open>[{"id":"a","amount":5},null]\<close> the initializer returns the empty collection, and the
  first element is lost with the second.
\<close>

theorem null_element_empties:
  \<open>initial_transactions example_platform example_enum (Some ''[{"id":"a","amount":5},null]'') start =
     (Inr [],
      \<lparr>console =
         [console_warn (missing_date_message ''a''),
          console_error ''Failed to parse transactions from localStorage:'' TypeError],
       clock_reads = 1, uuids_drawn = 0\<rparr>)\<close>
  by code_simp

subsection \<open>The order of the collection\<close>

lemma magnitude_nonneg: "0 \<le> magnitude v"
  by (induction v rule: magnitude.induct) auto

lemma whole_JNum_cases:
  assumes "whole (JNum n)"
  obtains q where "n = Fin q" and "q \<in> \<int>"
  using assms by (cases n) auto

lemma foldl_js_add_exact:
  assumes "list_all (\<lambda>n. whole (JNum n)) ns" and "a \<in> \<int>"
    and "\<bar>a\<bar> + sum_list (map (\<lambda>n. magnitude (JNum n)) ns) \<le> 2 ^ 53"
  shows "foldl js_add (Fin a) ns = Fin (a + sum_list (map number_value ns))"
  using assms
proof (induction ns arbitrary: a)
  case Nil
  then show ?case by simp
next
  case (Cons n ns)
  from Cons.prems(1) obtain q where n: "n = Fin q" and q: "q \<in> \<int>"
    by (auto elim: whole_JNum_cases)
  have rest: "0 \<le> sum_list (map (\<lambda>n. magnitude (JNum n)) ns)"
    by (rule sum_list_nonneg) (auto simp: magnitude_nonneg)
  have bound: "\<bar>a + q\<bar> + sum_list (map (\<lambda>n. magnitude (JNum n)) ns) \<le> 2 ^ 53"
    using Cons.prems(3) by (simp add: n)
  have int: "a + q \<in> \<int>" using Cons.prems(2) q by simp
  have "js_add (Fin a) n = Fin (a + q)"
    using round_double_exact [OF int] bound rest by (simp add: n)
  moreover have "list_all (\<lambda>n. whole (JNum n)) ns" using Cons.prems(1) by simp
  ultimately show ?case
    using Cons.IH [OF _ int bound] by (simp add: n add.assoc)
qed

lemma js_sum_exact:
  assumes "list_all (\<lambda>n. whole (JNum n)) ns"
    and "sum_list (map (\<lambda>n. magnitude (JNum n)) ns) \<le> 2 ^ 53"
  shows "js_sum ns = Fin (sum_list (map number_value ns))"
  using foldl_js_add_exact [OF assms(1), of 0] assms(2) by (simp add: js_sum_def)

lemma sum_list_mset_cong:
  fixes f :: "'a \<Rightarrow> rat"
  assumes "mset xs = mset ys"
  shows "sum_list (map f xs) = sum_list (map f ys)"
proof -
  have "sum_list (map f xs) = sum_mset (image_mset f (mset xs))"
    by (metis mset_map sum_mset_sum_list)
  also have "\<dots> = sum_mset (image_mset f (mset ys))" by (simp add: assms)
  also have "\<dots> = sum_list (map f ys)" by (metis mset_map sum_mset_sum_list)
  finally show ?thesis .
qed

lemma js_sum_mset:
  assumes "mset ns' = mset ns" and "list_all (\<lambda>n. whole (JNum n)) ns"
    and "sum_list (map (\<lambda>n. magnitude (JNum n)) ns) \<le> 2 ^ 53"
  shows "js_sum ns' = js_sum ns"
proof -
  have "set ns' = set ns" using assms(1) by (rule mset_eq_setD)
  with assms(2) have w': "list_all (\<lambda>n. whole (JNum n)) ns'" by (simp add: list_all_iff)
  have m': "sum_list (map (\<lambda>n. magnitude (JNum n)) ns') \<le> 2 ^ 53"
    using assms(3) sum_list_mset_cong [OF assms(1), of "\<lambda>n. magnitude (JNum n)"] by simp
  show ?thesis
    using js_sum_exact [OF w' m'] js_sum_exact [OF assms(2,3)]
      sum_list_mset_cong [OF assms(1), of number_value] by simp
qed

text \<open>The amounts that a predicate selects inherit wholeness and the bound.\<close>

lemma selected_whole:
  assumes "list_all (\<lambda>t. whole (amount t)) ts"
  shows "list_all (\<lambda>n. whole (JNum n))
           (map (\<lambda>t. the_number (amount t)) (filter (\<lambda>t. is_number (amount t) \<and> p t) ts))"
  using assms
proof (induction ts)
  case Nil
  then show ?case by simp
next
  case (Cons t ts)
  then show ?case by (cases "amount t") auto
qed

lemma selected_magnitude:
  "sum_list (map (\<lambda>n. magnitude (JNum n))
       (map (\<lambda>t. the_number (amount t)) (filter (\<lambda>t. is_number (amount t) \<and> p t) ts)))
   \<le> sum_list (map (\<lambda>t. magnitude (amount t)) ts)"
proof (induction ts)
  case Nil
  then show ?case by simp
next
  case (Cons t ts)
  have "0 \<le> magnitude (amount t)" by (rule magnitude_nonneg)
  with Cons show ?case by (cases "amount t") auto
qed

lemma js_sum_selected:
  assumes "mset ts' = mset ts"
    and "list_all (\<lambda>t. whole (amount t)) ts"
    and "sum_list (map (\<lambda>t. magnitude (amount t)) ts) \<le> 2 ^ 53"
  shows "js_sum (map (\<lambda>t. the_number (amount t)) (filter (\<lambda>t. is_number (amount t) \<and> p t) ts'))
         = js_sum (map (\<lambda>t. the_number (amount t)) (filter (\<lambda>t. is_number (amount t) \<and> p t) ts))"
proof (rule js_sum_mset)
  show "mset (map (\<lambda>t. the_number (amount t)) (filter (\<lambda>t. is_number (amount t) \<and> p t) ts'))
        = mset (map (\<lambda>t. the_number (amount t)) (filter (\<lambda>t. is_number (amount t) \<and> p t) ts))"
    by (simp add: assms(1))
  show "list_all (\<lambda>n. whole (JNum n))
          (map (\<lambda>t. the_number (amount t)) (filter (\<lambda>t. is_number (amount t) \<and> p t) ts))"
    using assms(2) by (rule selected_whole)
  show "sum_list (map (\<lambda>n. magnitude (JNum n))
          (map (\<lambda>t. the_number (amount t)) (filter (\<lambda>t. is_number (amount t) \<and> p t) ts)))
        \<le> 2 ^ 53"
    using selected_magnitude [of p ts] assms(3) by (rule order_trans)
qed

text \<open>
  C9. The totals of a collection and of a permutation of it are the same when every
  amount is whole and the magnitudes of the amounts sum to at most \<open>2 ^ 53\<close>: then no
  addition rounds. With amounts that have a fraction the totals can depend on the order,
  as for 0.1, 0.2 and 0.3 below.
\<close>

theorem aggregate_permutation_whole:
  assumes "mset ts' = mset ts"
    and "list_all (\<lambda>t. whole (amount t)) ts"
    and "sum_list (map (\<lambda>t. magnitude (amount t)) ts) \<le> 2 ^ 53"
  shows "totalIncome (aggregate E ts') = totalIncome (aggregate E ts)
         \<and> totalExpenses (aggregate E ts') = totalExpenses (aggregate E ts)
         \<and> balance (aggregate E ts') = balance (aggregate E ts)"
proof -
  have i: "js_sum (income_amounts E ts') = js_sum (income_amounts E ts)"
    unfolding income_amounts_def using assms by (rule js_sum_selected)
  have x: "js_sum (expense_amounts E ts') = js_sum (expense_amounts E ts)"
    unfolding expense_amounts_def using assms by (rule js_sum_selected)
  show ?thesis by (simp add: aggregate_totals i x)
qed

theorem aggregate_permutation_whole_witness:
  "mset [rent, salary, groceries] = mset [salary, groceries, rent]
   \<and> list_all (\<lambda>t. whole (amount t)) [salary, groceries, rent]
   \<and> sum_list (map (\<lambda>t. magnitude (amount t)) [salary, groceries, rent]) \<le> 2 ^ 53
   \<and> totalIncome (aggregate example_enum [rent, salary, groceries]) = Fin 1000
   \<and> totalExpenses (aggregate example_enum [rent, salary, groceries]) = Fin 900
   \<and> balance (aggregate example_enum [rent, salary, groceries]) = Fin 100"
proof -
  have p: "mset [rent, salary, groceries] = mset [salary, groceries, rent]"
    by (simp add: add_mset_commute)
  have w: "list_all (\<lambda>t. whole (amount t)) [salary, groceries, rent]"
    by (simp add: salary_def groceries_def rent_def)
  have m: "sum_list (map (\<lambda>t. magnitude (amount t)) [salary, groceries, rent]) \<le> 2 ^ 53"
    by (simp add: salary_def groceries_def rent_def)
  have v: "aggregate example_enum [salary, groceries, rent] =
             \<lparr>totalIncome = Fin 1000, totalExpenses = Fin 900, balance = Fin 100\<rparr>"
    by code_simp
  from aggregate_permutation_whole [OF p w m, of example_enum] p w m
  show ?thesis by (simp add: v)
qed

text \<open>
  The expenses 0.1, 0.2 and 0.3 total \<^verbatim>\<open>0.6000000000000001\<close> in this order and \<^verbatim>\<open>0.6\<close>
  in the reverse order.
\<close>

theorem aggregate_order_counterexample:
  "mset [three_tenths, fifth, tenth] = mset [tenth, fifth, three_tenths]
   \<and> totalExpenses (aggregate example_enum [tenth, fifth, three_tenths]) = string_to_number ''0.6000000000000001''
   \<and> totalExpenses (aggregate example_enum [three_tenths, fifth, tenth]) = string_to_number ''0.6''
   \<and> totalExpenses (aggregate example_enum [three_tenths, fifth, tenth])
       \<noteq> totalExpenses (aggregate example_enum [tenth, fifth, three_tenths])"
proof -
  have a: "totalExpenses (aggregate example_enum [tenth, fifth, three_tenths]) = string_to_number ''0.6000000000000001''"
    by code_simp
  have b: "totalExpenses (aggregate example_enum [three_tenths, fifth, tenth]) = string_to_number ''0.6''"
    by code_simp
  have c: "string_to_number ''0.6'' \<noteq> string_to_number ''0.6000000000000001''"
    by code_simp
  have d: "mset [three_tenths, fifth, tenth] = mset [tenth, fifth, three_tenths]"
    by (simp add: add_mset_commute)
  from a b c d show ?thesis by simp
qed

end
